theory Spec2Isabelle
  imports Complex_Main "HOL-Library.Sublist"
begin

section \<open>Values and the file store\<close>

text \<open>
  JavaScript numbers (timestamps in milliseconds, version counters, TTLs) are modelled as
  exact reals: the arithmetic of the routes is addition, subtraction and comparison of
  values far below \<open>2^53\<close>, where it is exact. One request is modelled at a single instant
  \<open>now\<close>: every \<open>Date.now()\<close> read while serving it returns \<open>now\<close>. Storage never fails
  (\<open>mkdir\<close>, \<open>writeFile\<close> succeed), and requests run one after the other.
\<close>

type_synonym number = real

text \<open>
  A JavaScript value as far as the routes look at it: the primitives, and \<open>JComposite\<close>
  for any object or array (always truthy, never a number or a boolean).
\<close>

datatype js_value = JUndefined | JNull | JBool bool | JNum number | JStr string | JComposite

text \<open>\<open>!v\<close> is \<open>\<not> truthy v\<close> (\<open>NaN\<close> does not occur in parsed JSON).\<close>

fun truthy :: "js_value \<Rightarrow> bool" where
  "truthy JUndefined = False"
| "truthy JNull = False"
| "truthy (JBool b) = b"
| "truthy (JNum n) = (n \<noteq> 0)"
| "truthy (JStr s) = (s \<noteq> [])"
| "truthy JComposite = True"

text \<open>The result of \<open>Number(v)\<close>.\<close>

datatype numeric = Finite number | NaN | PosInfinity | NegInfinity

text \<open>
  \<open>Number(v)\<close>. On \<open>undefined\<close>, \<open>null\<close>, booleans and numbers it is fixed by the language;
  on strings and objects it is the runtime's string-to-number conversion, taken as the
  parameter \<open>coerce\<close>.
\<close>

fun Number_js :: "(js_value \<Rightarrow> numeric) \<Rightarrow> js_value \<Rightarrow> numeric" where
  "Number_js coerce JUndefined = NaN"
| "Number_js coerce JNull = Finite 0"
| "Number_js coerce (JBool b) = Finite (if b then 1 else 0)"
| "Number_js coerce (JNum n) = Finite n"
| "Number_js coerce (JStr s) = coerce (JStr s)"
| "Number_js coerce JComposite = coerce JComposite"

text \<open>\<open>Math.round\<close>: the nearest integer, a tie going up.\<close>

definition Math_round :: "number \<Rightarrow> number" where
  "Math_round x = of_int \<lfloor>x + 1 / 2\<rfloor>"

subsection \<open>send/route.ts: constants and sanitizeTTL\<close>

definition DEFAULT_MESSAGE_TTL :: number where
  "DEFAULT_MESSAGE_TTL = 5 * 60 * 1000"

definition MIN_MESSAGE_TTL :: number where
  "MIN_MESSAGE_TTL = 60 * 1000"

definition MAX_MESSAGE_TTL :: number where
  "MAX_MESSAGE_TTL = 60 * 60 * 1000"

definition sanitizeTTL :: "(js_value \<Rightarrow> numeric) \<Rightarrow> js_value \<Rightarrow> number" where
  "sanitizeTTL coerce rawTtl =
     (case Number_js coerce rawTtl of
        Finite parsed \<Rightarrow>
          if parsed < MIN_MESSAGE_TTL then MIN_MESSAGE_TTL
          else if parsed > MAX_MESSAGE_TTL then MAX_MESSAGE_TTL
          else Math_round parsed
      | _ \<Rightarrow> DEFAULT_MESSAGE_TTL)"

subsection \<open>Session data in memory\<close>

text \<open>
  The interfaces \<open>SessionMessage\<close> and \<open>SessionData\<close>. The field \<open>id\<close> is \<open>msg_id\<close> here
  (\<open>id\<close> is the identity function of HOL); an optional field that is \<open>undefined\<close> is
  \<open>None\<close>.
\<close>

record SessionMessage =
  msg_id :: string
  ver :: number
  timestamp :: number
  expiresAt :: "number option"

record SessionData =
  session :: string
  lastVer :: "number option"
  messages :: "SessionMessage list"

subsection \<open>Stored files\<close>

text \<open>
  A stored message entry before defaulting: each field is present at the type of the
  \<open>SessionMessage\<close> interface or absent. (A field stored at another type would go through
  \<open>String()\<close> or \<open>Number()\<close>; such entries are outside the model.)
\<close>

record StoredMessage =
  j_id :: "string option"
  j_ver :: "number option"
  j_timestamp :: "number option"
  j_expiresAt :: "number option"

text \<open>\<open>NoArray\<close>: the \<open>messages\<close> field is absent, \<open>null\<close> or any value that is not an array.\<close>

datatype messages_field = NoArray | Array "StoredMessage list"

text \<open>
  A parsed JSON object with the fields the routes read or write; a field that is absent
  is \<open>JUndefined\<close>. Data records and status records are both objects of this shape.
\<close>

record StoredObject =
  j_session :: js_value
  j_active :: js_value
  j_lastUpdate :: js_value
  j_lastVer :: js_value
  j_messages :: messages_field

text \<open>The interface \<open>Viewer\<close>; its \<open>timestamp\<close> is \<open>v_timestamp\<close> here.\<close>

record Viewer =
  deviceId :: string
  operatorName :: string
  operatorId :: int
  v_timestamp :: number

text \<open>
  What \<open>JSON.parse\<close> makes of a file's text: it throws (\<open>Unparsable\<close>), or yields \<open>null\<close>,
  a number, string or boolean (\<open>JsonPrimitive\<close>), an object, or an array, which in this
  directory is the viewer registry.
\<close>

datatype content =
    Unparsable
  | JsonNull
  | JsonPrimitive
  | JsonObject StoredObject
  | JsonViewers "Viewer list"

record stored_file =
  content :: content
  mtimeMs :: number

text \<open>
  The directory \<open>.qrseat-data\<close>: file name to file. Session names are used as file-name
  stems as they are (path separators in a session name are not modelled).
\<close>

type_synonym store = "string \<Rightarrow> stored_file option"

definition writeFile :: "store \<Rightarrow> string \<Rightarrow> content \<Rightarrow> number \<Rightarrow> store" where
  "writeFile st name c now = st(name \<mapsto> \<lparr>content = c, mtimeMs = now\<rparr>)"

definition data_path :: "string \<Rightarrow> string" where
  "data_path s = s @ ''.json''"

definition status_path :: "string \<Rightarrow> string" where
  "status_path s = s @ ''-status.json''"

definition viewers_path :: string where
  "viewers_path = ''viewers.json''"

type_synonym body = "(string \<times> js_value) list"
type_synonym response = "nat \<times> body"

subsection \<open>send/route.ts: the queue\<close>

text \<open>\<open>message.expiresAt ?? (message.timestamp + DEFAULT_MESSAGE_TTL)\<close>\<close>

definition effective_expiresAt :: "SessionMessage \<Rightarrow> number" where
  "effective_expiresAt message =
     (case expiresAt message of
        Some e \<Rightarrow> e
      | None \<Rightarrow> timestamp message + DEFAULT_MESSAGE_TTL)"

text \<open>Returns the \<open>boolean\<close> result together with the mutated \<open>sessionData\<close>.\<close>

definition purgeExpiredMessages :: "SessionData \<Rightarrow> number \<Rightarrow> bool \<times> SessionData" where
  "purgeExpiredMessages sessionData now =
     (let originalLength = length (messages sessionData);
          kept = filter (\<lambda>message. effective_expiresAt message > now) (messages sessionData)
      in (length kept \<noteq> originalLength, sessionData\<lparr>messages := kept\<rparr>))"

definition highestVersion :: "SessionMessage list \<Rightarrow> number" where
  "highestVersion ms = foldl (\<lambda>mx message. if ver message > mx then ver message else mx) 0 ms"

definition ensureLastVersion :: "SessionData \<Rightarrow> SessionData" where
  "ensureLastVersion sessionData =
     (case lastVer sessionData of
        Some _ \<Rightarrow> sessionData
      | None \<Rightarrow> sessionData\<lparr>lastVer := Some (highestVersion (messages sessionData))\<rparr>)"

text \<open>\<open>JSON.stringify\<close> of a \<open>SessionData\<close>; a field that is \<open>undefined\<close> is left out.\<close>

definition stringify_message :: "SessionMessage \<Rightarrow> StoredMessage" where
  "stringify_message m =
     \<lparr>j_id = Some (msg_id m), j_ver = Some (ver m), j_timestamp = Some (timestamp m),
      j_expiresAt = expiresAt m\<rparr>"

definition stringify_data :: "SessionData \<Rightarrow> content" where
  "stringify_data d =
     JsonObject
       \<lparr>j_session = JStr (session d), j_active = JUndefined, j_lastUpdate = JUndefined,
        j_lastVer = (case lastVer d of Some n \<Rightarrow> JNum n | None \<Rightarrow> JUndefined),
        j_messages = Array (map stringify_message (messages d))\<rparr>"

text \<open>Returns the store and \<open>data\<close> as \<open>ensureLastVersion\<close> has mutated it.\<close>

definition saveSessionData :: "store \<Rightarrow> SessionData \<Rightarrow> number \<Rightarrow> SessionData \<times> store" where
  "saveSessionData st data now =
     (let data' = ensureLastVersion data
      in (data', writeFile st (data_path (session data')) (stringify_data data') now))"

text \<open>The function mapped over \<open>data.messages\<close> in \<open>loadSessionData\<close>.\<close>

definition read_message :: "number \<Rightarrow> StoredMessage \<Rightarrow> SessionMessage" where
  "read_message now message =
     \<lparr>msg_id = (case j_id message of Some s \<Rightarrow> s | None \<Rightarrow> []),
      ver = (case j_ver message of Some v \<Rightarrow> v | None \<Rightarrow> 0),
      timestamp = (case j_timestamp message of Some t \<Rightarrow> t | None \<Rightarrow> now),
      expiresAt = j_expiresAt message\<rparr>"

definition zero_record :: "string \<Rightarrow> SessionData" where
  "zero_record s = \<lparr>session = s, lastVer = Some 0, messages = []\<rparr>"

text \<open>
  What \<open>loadSessionData\<close> builds from a parsed object whose \<open>messages\<close> is an array,
  before the purge.
\<close>

definition parsed_data :: "string \<Rightarrow> number \<Rightarrow> StoredObject \<Rightarrow> StoredMessage list \<Rightarrow> SessionData" where
  "parsed_data s now data ms =
     \<lparr>session = s,
      lastVer = (case j_lastVer data of JNum n \<Rightarrow> Some n | _ \<Rightarrow> None),
      messages = map (read_message now) ms\<rparr>"

definition loadSessionData :: "store \<Rightarrow> string \<Rightarrow> number \<Rightarrow> SessionData \<times> store" where
  "loadSessionData st s now =
     (case st (data_path s) of
        None \<Rightarrow> (zero_record s, st)
      | Some f \<Rightarrow>
          (case content f of
             JsonObject data \<Rightarrow>
               (case j_messages data of
                  NoArray \<Rightarrow> (zero_record s, st)
                | Array ms \<Rightarrow>
                    (let (removed, purged) = purgeExpiredMessages (parsed_data s now data ms) now;
                         sessionData = ensureLastVersion purged
                     in if removed then saveSessionData st sessionData now
                        else (sessionData, st)))
           | _ \<Rightarrow> (zero_record s, st)))"

definition findExistingMessage :: "SessionData \<Rightarrow> string \<Rightarrow> number \<Rightarrow> number option" where
  "findExistingMessage sessionData i now =
     map_option ver
       (find (\<lambda>msg. msg_id msg = i \<and> effective_expiresAt msg > now) (messages sessionData))"

text \<open>
  \<open>loadSessionStatus\<close> returns \<open>JSON.parse(content)\<close> as it is, or the default when the
  file is missing or unparsable.
\<close>

definition default_status :: "string \<Rightarrow> number \<Rightarrow> content" where
  "default_status s now =
     JsonObject
       \<lparr>j_session = JStr s, j_active = JBool False, j_lastUpdate = JNum now,
        j_lastVer = JUndefined, j_messages = NoArray\<rparr>"

definition loadSessionStatus :: "store \<Rightarrow> string \<Rightarrow> number \<Rightarrow> content" where
  "loadSessionStatus st s now =
     (case st (status_path s) of
        None \<Rightarrow> default_status s now
      | Some f \<Rightarrow>
          (case content f of
             Unparsable \<Rightarrow> default_status s now
           | c \<Rightarrow> c))"

text \<open>
  Reading a property of the parsed value: \<open>None\<close> is the \<open>TypeError\<close> of a property read
  on \<open>null\<close>; a primitive or an array has neither \<open>active\<close> nor \<open>lastUpdate\<close>.
\<close>

fun prop_active :: "content \<Rightarrow> js_value option" where
  "prop_active JsonNull = None"
| "prop_active (JsonObject data) = Some (j_active data)"
| "prop_active _ = Some JUndefined"

fun prop_lastUpdate :: "content \<Rightarrow> js_value option" where
  "prop_lastUpdate JsonNull = None"
| "prop_lastUpdate (JsonObject data) = Some (j_lastUpdate data)"
| "prop_lastUpdate _ = Some JUndefined"

text \<open>
  \<open>cleanupOldFiles\<close>: every \<open>.json\<close> file not modified for more than 24 hours is deleted.
  The send route starts it without awaiting it; here it has run to its end before the next
  request is served.
\<close>

definition maxAge :: number where
  "maxAge = 24 * 60 * 60 * 1000"

definition cleanupOldFiles :: "store \<Rightarrow> number \<Rightarrow> store" where
  "cleanupOldFiles st now =
     (\<lambda>name. case st name of
        None \<Rightarrow> None
      | Some f \<Rightarrow> if suffix ''.json'' name \<and> now - mtimeMs f > maxAge then None else Some f)"

subsection \<open>send/route.ts: POST\<close>

definition bad_request :: "string \<Rightarrow> response" where
  "bad_request e = (400, [(''ok'', JBool False), (''error'', JStr e)])"

definition server_error :: response where
  "server_error = (500, [(''ok'', JBool False), (''error'', JStr ''Server error'')])"

definition not_active :: response where
  "not_active =
     (403, [(''ok'', JBool False), (''error'', JStr ''Session not active''),
            (''sessionActive'', JBool False)])"

definition duplicate_response :: "number \<Rightarrow> number \<Rightarrow> response" where
  "duplicate_response existingVer now =
     (200, [(''ok'', JBool True), (''ver'', JNum existingVer), (''time'', JNum now),
            (''duplicate'', JBool True)])"

definition accepted_response :: "number \<Rightarrow> number \<Rightarrow> response" where
  "accepted_response newVer now =
     (200, [(''ok'', JBool True), (''ver'', JNum newVer), (''time'', JNum now)])"

text \<open>The message pushed by an accepted send.\<close>

definition new_message :: "string \<Rightarrow> number \<Rightarrow> number \<Rightarrow> number \<Rightarrow> SessionMessage" where
  "new_message i newVer now ttl =
     \<lparr>msg_id = i, ver = newVer, timestamp = now, expiresAt = Some (now + ttl)\<rparr>"

text \<open>
  The request body carries \<open>session\<close> and \<open>id\<close> as strings (an absent field is the empty
  string: both are falsy) and \<open>messageTTL\<close> as any value.
\<close>

definition POST_send ::
  "(js_value \<Rightarrow> numeric) \<Rightarrow> number \<Rightarrow> store \<Rightarrow> string \<Rightarrow> string \<Rightarrow> js_value \<Rightarrow> response \<times> store" where
  "POST_send coerce now st s i messageTTL =
     (if s = [] \<or> i = [] then (bad_request ''Missing session or id'', st)
      else
        let ttl = sanitizeTTL coerce messageTTL
        in case prop_active (loadSessionStatus st s now) of
             None \<Rightarrow> (server_error, st)
           | Some a \<Rightarrow>
               if \<not> truthy a then (not_active, st)
               else
                 let (sessionData, st1) = loadSessionData st s now
                 in (case findExistingMessage sessionData i now of
                      Some existingVer \<Rightarrow> (duplicate_response existingVer now, st1)
                    | None \<Rightarrow>
                        let newVer =
                              (case lastVer sessionData of
                                 Some l \<Rightarrow> l
                               | None \<Rightarrow> of_nat (length (messages sessionData))) + 1;
                            pushed =
                              sessionData
                                \<lparr>lastVer := Some newVer,
                                 messages := messages sessionData @ [new_message i newVer now ttl]\<rparr>;
                            (saved, st2) = saveSessionData st1 pushed now;
                            st3 = cleanupOldFiles st2 now
                        in (accepted_response newVer now, st3)))"

subsection \<open>The next route (second document of viewers/route.ts)\<close>

text \<open>
  The file viewers/route.ts holds three documents: the viewers route, the next route
  modelled here, and an earlier version of the next route without expiry and \<open>lastVer\<close>,
  which is not modelled (nor is the earlier version of the send route).

  \<open>purgeExpiredMessages\<close> of this route is the same function. Its \<open>saveSessionData\<close>
  fills a missing \<open>lastVer\<close> itself, from the messages it is about to write, and so
  mutates the record it is given: the functions return the record as mutated. Its
  \<open>loadSessionData\<close> does not call \<open>ensureLastVersion\<close>.
\<close>

definition saveSessionData_next :: "store \<Rightarrow> SessionData \<Rightarrow> number \<Rightarrow> SessionData \<times> store" where
  "saveSessionData_next st data now =
     (let data' =
            (case lastVer data of
               Some _ \<Rightarrow> data
             | None \<Rightarrow> data\<lparr>lastVer := Some (highestVersion (messages data))\<rparr>)
      in (data', writeFile st (data_path (session data')) (stringify_data data') now))"

definition loadSessionData_next :: "store \<Rightarrow> string \<Rightarrow> number \<Rightarrow> SessionData \<times> store" where
  "loadSessionData_next st s now =
     (case st (data_path s) of
        None \<Rightarrow> (zero_record s, st)
      | Some f \<Rightarrow>
          (case content f of
             JsonObject data \<Rightarrow>
               (case j_messages data of
                  NoArray \<Rightarrow> (zero_record s, st)
                | Array ms \<Rightarrow>
                    (let (removed, sessionData) =
                           purgeExpiredMessages (parsed_data s now data ms) now
                     in if removed then saveSessionData_next st sessionData now
                        else (sessionData, st)))
           | _ \<Rightarrow> (zero_record s, st)))"

definition empty_response :: "number \<Rightarrow> response" where
  "empty_response now = (200, [(''ok'', JBool True), (''time'', JNum now)])"

definition delivery_response :: "string \<Rightarrow> number \<Rightarrow> response" where
  "delivery_response i now = (200, [(''ok'', JBool True), (''id'', JStr i), (''time'', JNum now)])"

text \<open>The query parameter \<open>session\<close> is a string, empty when it is absent.\<close>

definition GET_next :: "number \<Rightarrow> store \<Rightarrow> string \<Rightarrow> response \<times> store" where
  "GET_next now st s =
     (if s = [] then (bad_request ''Missing session parameter'', st)
      else
        let (sessionData, st1) = loadSessionData_next st s now
        in case messages sessionData of
             [] \<Rightarrow> (empty_response now, st1)
           | firstMessage # rest \<Rightarrow>
               let (saved, st2) = saveSessionData_next st1 (sessionData\<lparr>messages := rest\<rparr>) now
               in (delivery_response (msg_id firstMessage) now, st2))"

subsection \<open>status/route.ts\<close>

definition saveSessionStatus :: "store \<Rightarrow> string \<Rightarrow> bool \<Rightarrow> number \<Rightarrow> store" where
  "saveSessionStatus st s a now =
     writeFile st (status_path s)
       (JsonObject
          \<lparr>j_session = JStr s, j_active = JBool a, j_lastUpdate = JNum now,
           j_lastVer = JUndefined, j_messages = NoArray\<rparr>)
       now"


definition POST_status :: "number \<Rightarrow> store \<Rightarrow> string \<Rightarrow> js_value \<Rightarrow> response \<times> store" where
  "POST_status now st s a =
     (case a of
        JBool b \<Rightarrow>
          if s = [] then (bad_request ''Missing session or active state'', st)
          else ((200, [(''ok'', JBool True)]), saveSessionStatus st s b now)
      | _ \<Rightarrow> (bad_request ''Missing session or active state'', st))"

subsection \<open>viewers/route.ts\<close>

text \<open>
  \<open>Failed\<close> is the 500 response \<open>{ok: false, error: String(err)}\<close>, whose text is the
  runtime's; \<open>Done\<close> is \<open>{ok: true}\<close>; \<open>Listing vs\<close> is \<open>{ok: true, viewers: vs}\<close>.
\<close>

datatype viewers_response = MissingField string | Failed | Done | Listing "Viewer list"

text \<open>
  The file as the three handlers read it: a missing or unparsable file is the empty list;
  on parsed content that is not an array, \<open>viewers.filter\<close> throws (\<open>None\<close>).
\<close>

definition read_viewers :: "store \<Rightarrow> Viewer list option" where
  "read_viewers st =
     (case st viewers_path of
        None \<Rightarrow> Some []
      | Some f \<Rightarrow>
          (case content f of
             Unparsable \<Rightarrow> Some []
           | JsonViewers vs \<Rightarrow> Some vs
           | _ \<Rightarrow> None))"

text \<open>
  \<open>parseInt\<close> on the query string is the runtime's, taken as a parameter; \<open>None\<close> is
  \<open>NaN\<close>, which \<open>===\<close> equates with nothing.
\<close>

definition viewers_GET ::
  "(string \<Rightarrow> int option) \<Rightarrow> number \<Rightarrow> store \<Rightarrow> string \<Rightarrow> viewers_response" where
  "viewers_GET parseInt now st q =
     (if q = [] then MissingField ''Missing operatorId''
      else
        case read_viewers st of
          None \<Rightarrow> Failed
        | Some viewers \<Rightarrow>
            Listing
              (filter (\<lambda>v. Some (operatorId v) = parseInt q \<and> now - v_timestamp v < 10000)
                 viewers))"

text \<open>
  The body carries \<open>deviceId\<close> and \<open>operatorName\<close> as strings (empty when absent) and
  \<open>operatorId\<close> as an integer, the operator slot, which \<open>parseInt\<close> returns unchanged.
\<close>

definition viewers_POST ::
  "number \<Rightarrow> store \<Rightarrow> string \<Rightarrow> string \<Rightarrow> int \<Rightarrow> viewers_response \<times> store" where
  "viewers_POST now st d name op =
     (if d = [] \<or> name = [] \<or> op = 0 then
        (MissingField ''Missing required fields: deviceId, operatorName, operatorId'', st)
      else
        case read_viewers st of
          None \<Rightarrow> (Failed, st)
        | Some viewers \<Rightarrow>
            let fresh = filter (\<lambda>v. now - v_timestamp v < 10000) viewers;
                others = filter (\<lambda>v. deviceId v \<noteq> d) fresh;
                pushed =
                  others @ [\<lparr>deviceId = d, operatorName = name, operatorId = op, v_timestamp = now\<rparr>]
            in (Done, writeFile st viewers_path (JsonViewers pushed) now))"

definition viewers_DELETE :: "number \<Rightarrow> store \<Rightarrow> string \<Rightarrow> viewers_response \<times> store" where
  "viewers_DELETE now st d =
     (if d = [] then (MissingField ''Missing deviceId'', st)
      else
        case read_viewers st of
          None \<Rightarrow> (Failed, st)
        | Some viewers \<Rightarrow>
            (Done, writeFile st viewers_path (JsonViewers (filter (\<lambda>v. deviceId v \<noteq> d) viewers)) now))"

subsection \<open>Views of the store\<close>

text \<open>
  The stored array of message entries of a session; empty when the record loads as the
  zero-value record.
\<close>

definition stored_messages :: "store \<Rightarrow> string \<Rightarrow> StoredMessage list" where
  "stored_messages st s =
     (case st (data_path s) of
        None \<Rightarrow> []
      | Some f \<Rightarrow>
          (case content f of
             JsonObject data \<Rightarrow> (case j_messages data of NoArray \<Rightarrow> [] | Array ms \<Rightarrow> ms)
           | _ \<Rightarrow> []))"

text \<open>
  The test of the purge: the expiry of the message lies after \<open>now\<close>.
\<close>

definition live :: "number \<Rightarrow> SessionMessage \<Rightarrow> bool" where
  "live now message = (effective_expiresAt message > now)"

text \<open>
  The queue as a load at \<open>now\<close> sees it: the stored entries, defaulted, without the expired ones.
\<close>

definition queue :: "store \<Rightarrow> string \<Rightarrow> number \<Rightarrow> SessionMessage list" where
  "queue st s now = filter (live now) (map (read_message now) (stored_messages st s))"

text \<open>
  Some stored entry has expired at \<open>now\<close>: the purge of a load will report a removal.
\<close>

definition expired_present :: "store \<Rightarrow> string \<Rightarrow> number \<Rightarrow> bool" where
  "expired_present st s now =
     (\<exists>m\<in>set (map (read_message now) (stored_messages st s)). \<not> live now m)"

text \<open>
  The \<open>lastVer\<close> a load starts from: the stored number, 0 for the zero-value record, and
  \<open>None\<close> when the record has a messages array and no numeric \<open>lastVer\<close>.
\<close>

definition stored_lastVer :: "store \<Rightarrow> string \<Rightarrow> number option" where
  "stored_lastVer st s =
     (case st (data_path s) of
        None \<Rightarrow> Some 0
      | Some f \<Rightarrow>
          (case content f of
             JsonObject data \<Rightarrow>
               (case j_messages data of
                  NoArray \<Rightarrow> Some 0
                | Array ms \<Rightarrow> (case j_lastVer data of JNum n \<Rightarrow> Some n | _ \<Rightarrow> None))
           | _ \<Rightarrow> Some 0))"

text \<open>
  The lastVersion of a session at \<open>now\<close>: what a send would add 1 to,
  \<open>sessionData.lastVer ?? sessionData.messages.length\<close> after the load.
\<close>

definition lastVersion :: "store \<Rightarrow> string \<Rightarrow> number \<Rightarrow> number" where
  "lastVersion st s now =
     (let sessionData = fst (loadSessionData st s now)
      in case lastVer sessionData of
           Some l \<Rightarrow> l
         | None \<Rightarrow> of_nat (length (messages sessionData)))"

text \<open>
  The \<open>lastVer\<close> of the record that the next route's load returns.
\<close>

definition next_lastVer :: "store \<Rightarrow> string \<Rightarrow> number \<Rightarrow> number option" where
  "next_lastVer st s now = lastVer (fst (loadSessionData_next st s now))"

text \<open>
  The gate as the send route tests it: \<open>!!sessionStatus.active\<close>, or \<open>None\<close> when reading
  the property throws.
\<close>

definition gate_open :: "store \<Rightarrow> string \<Rightarrow> number \<Rightarrow> bool option" where
  "gate_open st s now = map_option truthy (prop_active (loadSessionStatus st s now))"

text \<open>
  The store an accepted send leaves: the loaded record with the new message pushed is
  saved, then the sweep runs.
\<close>

definition accepted_store :: "(js_value \<Rightarrow> numeric) \<Rightarrow> number \<Rightarrow> store \<Rightarrow> string \<Rightarrow> string \<Rightarrow> js_value \<Rightarrow> store" where
  "accepted_store coerce now st s i messageTTL =
     cleanupOldFiles
       (writeFile (snd (loadSessionData st s now)) (data_path s)
          (stringify_data
             \<lparr>session = s, lastVer = Some (lastVersion st s now + 1),
              messages =
                queue st s now @
                [new_message i (lastVersion st s now + 1) now (sanitizeTTL coerce messageTTL)]\<rparr>)
          now)
       now"

text \<open>
  The store a delivering next leaves: the loaded record without its first message is saved.
\<close>

definition delivered_store :: "number \<Rightarrow> store \<Rightarrow> string \<Rightarrow> SessionMessage list \<Rightarrow> store" where
  "delivered_store now st s rest =
     writeFile (snd (loadSessionData_next st s now)) (data_path s)
       (stringify_data
          \<lparr>session = s,
           lastVer =
             Some (case next_lastVer st s now of Some l \<Rightarrow> l | None \<Rightarrow> highestVersion rest),
           messages = rest\<rparr>)
       now"

text \<open>The registry as a list; empty when the file is missing, unparsable or not an array.\<close>

definition viewers_of :: "store \<Rightarrow> Viewer list" where
  "viewers_of st = (case read_viewers st of Some vs \<Rightarrow> vs | None \<Rightarrow> [])"

text \<open>The id and version of a message, and those of the stored messages, in stored order.\<close>

definition pair_of :: "SessionMessage \<Rightarrow> string \<times> number" where
  "pair_of m = (msg_id m, ver m)"

definition stored_pairs :: "store \<Rightarrow> string \<Rightarrow> (string \<times> number) list" where
  "stored_pairs st s = map (\<lambda>x. pair_of (read_message 0 x)) (stored_messages st s)"

subsection \<open>Runs of requests on one session\<close>

text \<open>
  The requests of one session: a send of an id with a ttl, a next, a bare load by either
  route, and a status write. Each comes with the instant at which it is served.
\<close>

datatype request = Send string js_value | Next | Load | LoadNext | SetActive bool

text \<open>What a run records: the id and version of each accepted and each delivered message.\<close>

datatype event = Accepted string number | Delivered string number

text \<open>The version in the answer of an accepted send (200, no \<open>duplicate\<close> field).\<close>

definition accepted_version :: "response \<Rightarrow> number option" where
  "accepted_version r =
     (if fst r = 200 \<and> map_of (snd r) ''duplicate'' = None
      then (case map_of (snd r) ''ver'' of Some (JNum v) \<Rightarrow> Some v | _ \<Rightarrow> None)
      else None)"

text \<open>The \<open>firstMessage\<close> that \<open>GET_next\<close> consumes, if any.\<close>

definition delivered_message :: "number \<Rightarrow> store \<Rightarrow> string \<Rightarrow> SessionMessage option" where
  "delivered_message now st s =
     (if s = [] then None
      else case messages (fst (loadSessionData_next st s now)) of
             [] \<Rightarrow> None
           | firstMessage # rest \<Rightarrow> Some firstMessage)"

fun step :: "(js_value \<Rightarrow> numeric) \<Rightarrow> string \<Rightarrow> store \<Rightarrow> number \<times> request \<Rightarrow> store \<times> event list" where
  "step coerce s st (now, Send i messageTTL) =
     (let (r, st') = POST_send coerce now st s i messageTTL
      in (st', case accepted_version r of Some v \<Rightarrow> [Accepted i v] | None \<Rightarrow> []))"
| "step coerce s st (now, Next) =
     (snd (GET_next now st s),
      case delivered_message now st s of
        Some m \<Rightarrow> [Delivered (msg_id m) (ver m)]
      | None \<Rightarrow> [])"
| "step coerce s st (now, Load) = (snd (loadSessionData st s now), [])"
| "step coerce s st (now, LoadNext) = (snd (loadSessionData_next st s now), [])"
| "step coerce s st (now, SetActive b) = (snd (POST_status now st s (JBool b)), [])"

fun run :: "(js_value \<Rightarrow> numeric) \<Rightarrow> string \<Rightarrow> store \<Rightarrow> (number \<times> request) list \<Rightarrow> store \<times> event list" where
  "run coerce s st [] = (st, [])"
| "run coerce s st (r # rs) =
     (let (st1, es1) = step coerce s st r;
          (st2, es2) = run coerce s st1 rs
      in (st2, es1 @ es2))"

fun accepted_of :: "event list \<Rightarrow> (string \<times> number) list" where
  "accepted_of [] = []"
| "accepted_of (Accepted i v # es) = (i, v) # accepted_of es"
| "accepted_of (Delivered i v # es) = accepted_of es"

fun delivered_of :: "event list \<Rightarrow> (string \<times> number) list" where
  "delivered_of [] = []"
| "delivered_of (Delivered i v # es) = (i, v) # delivered_of es"
| "delivered_of (Accepted i v # es) = delivered_of es"

subsection \<open>Concrete inputs for the examples\<close>

text \<open>A runtime conversion that yields \<open>NaN\<close> on every string and object.\<close>

definition no_conversion :: "js_value \<Rightarrow> numeric" where
  "no_conversion v = NaN"

text \<open>A status file written at \<open>t\<close> with the given active flag.\<close>

definition status_record :: "string \<Rightarrow> js_value \<Rightarrow> number \<Rightarrow> stored_file" where
  "status_record s a t =
     \<lparr>content =
        JsonObject
          \<lparr>j_session = JStr s, j_active = a, j_lastUpdate = JNum t,
           j_lastVer = JUndefined, j_messages = NoArray\<rparr>,
      mtimeMs = t\<rparr>"

text \<open>A session \<open>s\<close> switched on at time 0 that has no data file yet.\<close>

definition open_store :: store where
  "open_store = [status_path ''s'' \<mapsto> status_record ''s'' (JBool True) 0]"

text \<open>The same session switched off.\<close>

definition closed_store :: store where
  "closed_store = [status_path ''s'' \<mapsto> status_record ''s'' (JBool False) 0]"

text \<open>
  A session with an open gate and two stored messages: \<open>A\<close>, version 1, written at 0 with
  no \<open>expiresAt\<close> (so expiring at 300000), and \<open>B\<close>, version 2, expiring at 500000.
\<close>

definition queue_store :: store where
  "queue_store =
     [status_path ''s'' \<mapsto> status_record ''s'' (JBool True) 0,
      data_path ''s'' \<mapsto>
        \<lparr>content =
           JsonObject
             \<lparr>j_session = JStr ''s'', j_active = JUndefined, j_lastUpdate = JUndefined,
              j_lastVer = JNum 2,
              j_messages =
                Array
                  [\<lparr>j_id = Some ''A'', j_ver = Some 1, j_timestamp = Some 0, j_expiresAt = None\<rparr>,
                   \<lparr>j_id = Some ''B'', j_ver = Some 2, j_timestamp = Some 200000,
                    j_expiresAt = Some 500000\<rparr>]\<rparr>,
         mtimeMs = 200000\<rparr>]"


text \<open>
  An active session whose data record has no \<open>lastVer\<close> and one message of version 3,
  written at 1000 without \<open>expiresAt\<close> (so expiring at 301000).
\<close>

definition legacy_queue_store :: store where
  "legacy_queue_store =
     [status_path ''s'' \<mapsto> status_record ''s'' (JBool True) 0,
      data_path ''s'' \<mapsto>
        \<lparr>content =
           JsonObject
             \<lparr>j_session = JStr ''s'', j_active = JUndefined, j_lastUpdate = JUndefined,
              j_lastVer = JUndefined,
              j_messages =
                Array [\<lparr>j_id = Some ''A'', j_ver = Some 3, j_timestamp = Some 1000,
                       j_expiresAt = None\<rparr>]\<rparr>,
         mtimeMs = 1000\<rparr>]"


text \<open>\<open>parseInt\<close> on the two query strings of the example.\<close>

definition slot_parseInt :: "string \<Rightarrow> int option" where
  "slot_parseInt q = (if q = ''2'' then Some 2 else if q = ''3'' then Some 3 else None)"

text \<open>The registry after device \<open>d1\<close> has registered as Mario under operator 2 at time 1000.\<close>

definition mario_store :: store where
  "mario_store = snd (viewers_POST 1000 Map.empty ''d1'' ''Mario'' 2)"

text \<open>
  Scenario B and E on a fresh active session: two sends, a repeated send, three polls.
\<close>

definition scenario :: "(number \<times> request) list" where
  "scenario =
     [(1000, Send ''A'' JUndefined), (1001, Send ''B'' JUndefined), (1002, Send ''A'' JUndefined),
      (2000, Next), (2001, Next), (2002, Next)]"

section \<open>Basic facts\<close>

subsection \<open>Loading and saving\<close>

lemma length_filter_neq: "(length (filter P xs) \<noteq> length xs) = (\<exists>x\<in>set xs. \<not> P x)"
proof (induction xs)
  case Nil
  show ?case by simp
next
  case (Cons a xs)
  have "length (filter P xs) \<le> length xs" by simp
  then have "length (filter P xs) \<noteq> Suc (length xs)" by arith
  with Cons show ?case by auto
qed

lemma live_fun: "(\<lambda>message. now < effective_expiresAt message) = live now"
  by (simp add: live_def fun_eq_iff)

lemma purge_removed: "fst (purgeExpiredMessages d now) = (\<exists>m\<in>set (messages d). \<not> live now m)"
  by (simp add: purgeExpiredMessages_def Let_def live_fun length_filter_neq)

lemma purge_data:
  "snd (purgeExpiredMessages d now) = d\<lparr>messages := filter (live now) (messages d)\<rparr>"
  by (simp add: purgeExpiredMessages_def Let_def live_fun)

lemma load_messages: "messages (fst (loadSessionData st s now)) = queue st s now"
  by (simp add: loadSessionData_def queue_def stored_messages_def zero_record_def Let_def
      split_beta purge_data ensureLastVersion_def parsed_data_def saveSessionData_def
      split: option.splits content.splits messages_field.splits)

lemma load_next_messages: "messages (fst (loadSessionData_next st s now)) = queue st s now"
  by (simp add: loadSessionData_next_def queue_def stored_messages_def zero_record_def Let_def
      split_beta purge_data parsed_data_def saveSessionData_next_def
      split: option.splits content.splits messages_field.splits)

lemma load_session: "session (fst (loadSessionData st s now)) = s"
  by (simp add: loadSessionData_def zero_record_def Let_def
      split_beta purge_data ensureLastVersion_def parsed_data_def saveSessionData_def
      split: option.splits content.splits messages_field.splits)

lemma read_stringify: "read_message now (stringify_message m) = m"
  by (simp add: read_message_def stringify_message_def)

lemma map_read_stringify: "map (read_message now \<circ> stringify_message) ms = ms"
  by (simp add: map_idI read_stringify)

lemma stored_writeFile_data:
  "stored_messages (writeFile st (data_path s) (stringify_data d) t) s =
     map stringify_message (messages d)"
  by (simp add: stored_messages_def writeFile_def stringify_data_def)

lemma Math_round_range:
  assumes "MIN_MESSAGE_TTL \<le> p" "p \<le> MAX_MESSAGE_TTL"
  shows "MIN_MESSAGE_TTL \<le> Math_round p \<and> Math_round p \<le> MAX_MESSAGE_TTL"
proof -
  have "(60000::int) \<le> \<lfloor>p + 1 / 2\<rfloor>"
    using assms(1) by (simp add: le_floor_iff MIN_MESSAGE_TTL_def)
  moreover have "\<lfloor>p + 1 / 2\<rfloor> \<le> (3600000::int)"
    using assms(2) by (simp add: floor_le_iff MAX_MESSAGE_TTL_def)
  ultimately show ?thesis
    by (simp add: Math_round_def MIN_MESSAGE_TTL_def MAX_MESSAGE_TTL_def)
qed

lemma sanitizeTTL_range:
  "MIN_MESSAGE_TTL \<le> sanitizeTTL coerce rawTtl \<and> sanitizeTTL coerce rawTtl \<le> MAX_MESSAGE_TTL"
proof (cases "Number_js coerce rawTtl")
  case (Finite p)
  then show ?thesis
    using Math_round_range [of p]
    by (simp add: sanitizeTTL_def) (simp add: MIN_MESSAGE_TTL_def MAX_MESSAGE_TTL_def)
qed (simp_all add: sanitizeTTL_def MIN_MESSAGE_TTL_def MAX_MESSAGE_TTL_def DEFAULT_MESSAGE_TTL_def)

lemma load_lastVer_eq:
  "lastVer (fst (loadSessionData st s now)) =
     Some (case stored_lastVer st s of Some l \<Rightarrow> l | None \<Rightarrow> highestVersion (queue st s now))"
  by (simp add: loadSessionData_def zero_record_def Let_def queue_def stored_messages_def
      stored_lastVer_def split_beta purge_data ensureLastVersion_def parsed_data_def
      saveSessionData_def
      split: option.splits content.splits messages_field.splits js_value.splits)

lemma lastVersion_eq:
  "lastVersion st s now =
     (case stored_lastVer st s of Some l \<Rightarrow> l | None \<Rightarrow> highestVersion (queue st s now))"
  by (simp add: lastVersion_def Let_def load_lastVer_eq)

lemma load_eq:
  "fst (loadSessionData st s now) =
     \<lparr>session = s, lastVer = Some (lastVersion st s now), messages = queue st s now\<rparr>"
  using load_messages [of st s now] load_session [of st s now] load_lastVer_eq [of st s now]
  by (cases "fst (loadSessionData st s now)") (simp add: lastVersion_eq)

lemma load_store:
  "snd (loadSessionData st s now) =
     (if expired_present st s now
      then writeFile st (data_path s) (stringify_data (fst (loadSessionData st s now))) now
      else st)"
  by (auto simp add: loadSessionData_def zero_record_def Let_def expired_present_def
      stored_messages_def split_beta purge_data purge_removed ensureLastVersion_def
      parsed_data_def saveSessionData_def
      split: option.splits content.splits messages_field.splits)

lemma find_live_queue:
  "find (\<lambda>msg. msg_id msg = i \<and> effective_expiresAt msg > now) (queue st s now) =
     find (\<lambda>msg. msg_id msg = i) (queue st s now)"
proof -
  have "find (\<lambda>msg. msg_id msg = i \<and> live now msg) (filter (live now) xs) =
        find (\<lambda>msg. msg_id msg = i) (filter (live now) xs)" for xs
    by (induction xs) auto
  then show ?thesis
    by (simp add: queue_def live_def)
qed

lemma findExisting_load:
  "findExistingMessage (fst (loadSessionData st s now)) i now =
     map_option ver (find (\<lambda>msg. msg_id msg = i) (queue st s now))"
  by (simp add: findExistingMessage_def load_messages find_live_queue)

subsection \<open>The handlers in terms of the views\<close>

lemma POST_send_unfold:
  "POST_send coerce now st s i messageTTL =
     (if s = [] \<or> i = [] then (bad_request ''Missing session or id'', st)
      else
        case prop_active (loadSessionStatus st s now) of
          None \<Rightarrow> (server_error, st)
        | Some a \<Rightarrow>
            if \<not> truthy a then (not_active, st)
            else
              (case find (\<lambda>msg. msg_id msg = i) (queue st s now) of
                 Some m \<Rightarrow> (duplicate_response (ver m) now, snd (loadSessionData st s now))
               | None \<Rightarrow>
                   (accepted_response (lastVersion st s now + 1) now,
                    accepted_store coerce now st s i messageTTL)))"
proof -
  obtain sd st1 where l: "loadSessionData st s now = (sd, st1)"
    by (cases "loadSessionData st s now")
  have sd: "sd = \<lparr>session = s, lastVer = Some (lastVersion st s now), messages = queue st s now\<rparr>"
    using load_eq [of st s now] l by simp
  have f: "findExistingMessage sd i now = map_option ver (find (\<lambda>msg. msg_id msg = i) (queue st s now))"
    using findExisting_load [of st s now i] l by simp
  have st1: "st1 = snd (loadSessionData st s now)"
    using l by simp
  show ?thesis
    unfolding POST_send_def l
    using f unfolding sd
    by (auto simp add: Let_def accepted_store_def st1 [symmetric] saveSessionData_def
        ensureLastVersion_def split: option.splits)
qed

lemma next_lastVer_eq:
  "next_lastVer st s now =
     (case stored_lastVer st s of
        Some l \<Rightarrow> Some l
      | None \<Rightarrow> if expired_present st s now then Some (highestVersion (queue st s now)) else None)"
  by (auto simp add: next_lastVer_def loadSessionData_next_def zero_record_def Let_def queue_def
      stored_messages_def stored_lastVer_def expired_present_def split_beta purge_data
      purge_removed parsed_data_def saveSessionData_next_def
      split: option.splits content.splits messages_field.splits js_value.splits)

lemma load_next_session: "session (fst (loadSessionData_next st s now)) = s"
  by (simp add: loadSessionData_next_def zero_record_def Let_def
      split_beta purge_data parsed_data_def saveSessionData_next_def
      split: option.splits content.splits messages_field.splits)

lemma load_next_eq:
  "fst (loadSessionData_next st s now) =
     \<lparr>session = s, lastVer = next_lastVer st s now, messages = queue st s now\<rparr>"
  using load_next_messages [of st s now] load_next_session [of st s now]
  by (cases "fst (loadSessionData_next st s now)") (simp add: next_lastVer_def)

lemma load_next_store:
  "snd (loadSessionData_next st s now) =
     (if expired_present st s now
      then writeFile st (data_path s) (stringify_data (fst (loadSessionData_next st s now))) now
      else st)"
  by (auto simp add: loadSessionData_next_def zero_record_def Let_def expired_present_def
      stored_messages_def split_beta purge_data purge_removed
      parsed_data_def saveSessionData_next_def
      split: option.splits content.splits messages_field.splits)

lemma GET_next_unfold:
  "GET_next now st s =
     (if s = [] then (bad_request ''Missing session parameter'', st)
      else
        case queue st s now of
          [] \<Rightarrow> (empty_response now, snd (loadSessionData_next st s now))
        | firstMessage # rest \<Rightarrow>
            (delivery_response (msg_id firstMessage) now, delivered_store now st s rest))"
proof -
  obtain sd st1 where l: "loadSessionData_next st s now = (sd, st1)"
    by (cases "loadSessionData_next st s now")
  have sd: "sd = \<lparr>session = s, lastVer = next_lastVer st s now, messages = queue st s now\<rparr>"
    using load_next_eq [of st s now] l by simp
  have st1: "st1 = snd (loadSessionData_next st s now)"
    using l by simp
  show ?thesis
    unfolding GET_next_def l sd
    by (auto simp add: Let_def delivered_store_def st1 [symmetric] saveSessionData_next_def
        split: option.splits list.splits)
qed

subsection \<open>What the views depend on\<close>

lemma stored_messages_cong:
  "st (data_path s) = st' (data_path s) \<Longrightarrow> stored_messages st s = stored_messages st' s"
  by (simp add: stored_messages_def)

lemma stored_lastVer_cong:
  "st (data_path s) = st' (data_path s) \<Longrightarrow> stored_lastVer st s = stored_lastVer st' s"
  by (simp add: stored_lastVer_def)

lemma queue_cong:
  "st (data_path s) = st' (data_path s) \<Longrightarrow> queue st s now = queue st' s now"
  by (simp add: queue_def stored_messages_cong [of st s st'])

lemma lastVersion_cong:
  "st (data_path s) = st' (data_path s) \<Longrightarrow> lastVersion st s now = lastVersion st' s now"
  using stored_lastVer_cong [of st s st'] queue_cong [of st s st' now]
  by (simp add: lastVersion_eq split: option.splits)

lemma queue_writeFile_data:
  "queue (writeFile st (data_path s) (stringify_data d) t) s now = filter (live now) (messages d)"
  by (simp add: queue_def stored_writeFile_data map_read_stringify)

lemma stored_lastVer_writeFile_data:
  "stored_lastVer (writeFile st (data_path s) (stringify_data d) t) s = lastVer d"
  by (simp add: stored_lastVer_def writeFile_def stringify_data_def split: option.splits)

lemma filter_live_queue: "filter (live now) (queue st s now) = queue st s now"
  by (simp add: queue_def)

lemma cleanup_written:
  "cleanupOldFiles (writeFile st name c now) now name = Some \<lparr>content = c, mtimeMs = now\<rparr>"
  by (simp add: cleanupOldFiles_def writeFile_def maxAge_def)

lemma paths_differ: "status_path s \<noteq> data_path s"
  by (simp add: status_path_def data_path_def)

lemmas eval_defs =
  POST_send_def loadSessionStatus_def status_path_def data_path_def loadSessionData_def
  sanitizeTTL_def Math_round_def findExistingMessage_def zero_record_def saveSessionData_def
  ensureLastVersion_def writeFile_def stringify_data_def stringify_message_def
  cleanupOldFiles_def new_message_def Let_def
  bad_request_def server_error_def not_active_def duplicate_response_def accepted_response_def
  MIN_MESSAGE_TTL_def MAX_MESSAGE_TTL_def DEFAULT_MESSAGE_TTL_def maxAge_def
  purgeExpiredMessages_def parsed_data_def read_message_def effective_expiresAt_def
  highestVersion_def stored_messages_def status_record_def open_store_def no_conversion_def

lemma accepted_store_data:
  "accepted_store coerce now st s i messageTTL (data_path s) =
     Some \<lparr>content =
             stringify_data
               \<lparr>session = s, lastVer = Some (lastVersion st s now + 1),
                messages =
                  queue st s now @
                  [new_message i (lastVersion st s now + 1) now (sanitizeTTL coerce messageTTL)]\<rparr>,
           mtimeMs = now\<rparr>"
  by (simp add: accepted_store_def cleanup_written)

lemma stored_messages_accepted:
  "stored_messages (accepted_store coerce now st s i messageTTL) s =
     map stringify_message
       (queue st s now @
        [new_message i (lastVersion st s now + 1) now (sanitizeTTL coerce messageTTL)])"
  by (simp add: stored_messages_def accepted_store_data stringify_data_def)

lemma POST_send_acceptedD:
  assumes "fst (POST_send coerce now st s i messageTTL) = accepted_response v t"
  shows "v = lastVersion st s now + 1 \<and> t = now \<and>
         snd (POST_send coerce now st s i messageTTL) = accepted_store coerce now st s i messageTTL \<and>
         s \<noteq> [] \<and> i \<noteq> [] \<and> find (\<lambda>msg. msg_id msg = i) (queue st s now) = None \<and>
         (\<exists>a. prop_active (loadSessionStatus st s now) = Some a \<and> truthy a)"
  using assms
  by (auto simp add: POST_send_unfold bad_request_def server_error_def not_active_def
      duplicate_response_def accepted_response_def split: if_splits option.splits)

lemmas eval_next_defs =
  eval_defs GET_next_def loadSessionData_next_def saveSessionData_next_def empty_response_def
  delivery_response_def expired_present_def live_def queue_def queue_store_def

lemma POST_send_gate:
  "POST_send coerce now st s i messageTTL =
     (if s = [] \<or> i = [] then (bad_request ''Missing session or id'', st)
      else
        case gate_open st s now of
          None \<Rightarrow> (server_error, st)
        | Some False \<Rightarrow> (not_active, st)
        | Some True \<Rightarrow>
            (case find (\<lambda>msg. msg_id msg = i) (queue st s now) of
               Some m \<Rightarrow> (duplicate_response (ver m) now, snd (loadSessionData st s now))
             | None \<Rightarrow>
                 (accepted_response (lastVersion st s now + 1) now,
                  accepted_store coerce now st s i messageTTL)))"
  by (simp add: POST_send_unfold gate_open_def split: option.splits)

lemma gate_absent: "st (status_path s) = None \<Longrightarrow> gate_open st s now = Some False"
  by (simp add: gate_open_def loadSessionStatus_def default_status_def)

lemma POST_send_duplicateD:
  assumes "fst (POST_send coerce now st s i messageTTL) = duplicate_response v t"
  shows "\<exists>m. find (\<lambda>msg. msg_id msg = i) (queue st s now) = Some m \<and> ver m = v \<and> t = now \<and>
           snd (POST_send coerce now st s i messageTTL) = snd (loadSessionData st s now) \<and>
           gate_open st s now = Some True \<and> s \<noteq> [] \<and> i \<noteq> []"
  using assms
  by (auto simp add: POST_send_gate bad_request_def server_error_def not_active_def
      duplicate_response_def accepted_response_def split: if_splits option.splits bool.splits)

lemma GET_next_deliveryD:
  assumes "fst (GET_next now st s) = delivery_response i t"
  shows "\<exists>m rest. queue st s now = m # rest \<and> msg_id m = i \<and> t = now \<and> s \<noteq> [] \<and>
           snd (GET_next now st s) = delivered_store now st s rest"
  using assms
  by (auto simp add: GET_next_unfold bad_request_def empty_response_def delivery_response_def
      split: if_splits list.splits)

lemma in_queue:
  "m \<in> set (queue st s now) \<longleftrightarrow>
     m \<in> set (map (read_message now) (stored_messages st s)) \<and> effective_expiresAt m > now"
  by (auto simp add: queue_def live_def)

subsection \<open>The viewer registry\<close>

lemma read_viewers_written: "read_viewers (writeFile st viewers_path (JsonViewers vs) t) = Some vs"
  by (simp add: read_viewers_def writeFile_def)

lemma viewers_POST_ok:
  assumes "d \<noteq> []" and "name \<noteq> []" and "op \<noteq> 0" and "read_viewers st = Some viewers"
  shows "viewers_POST now st d name op =
     (Done,
      writeFile st viewers_path
        (JsonViewers
           (filter (\<lambda>v. deviceId v \<noteq> d) (filter (\<lambda>v. now - v_timestamp v < 10000) viewers) @
            [\<lparr>deviceId = d, operatorName = name, operatorId = op, v_timestamp = now\<rparr>]))
        now)"
  using assms by (simp add: viewers_POST_def Let_def)

subsection \<open>Files that a request leaves alone\<close>

lemma load_other:
  "name \<noteq> data_path s \<Longrightarrow> snd (loadSessionData st s now) name = st name"
  by (simp add: load_store writeFile_def)

lemma load_next_other:
  "name \<noteq> data_path s \<Longrightarrow> snd (loadSessionData_next st s now) name = st name"
  by (simp add: load_next_store writeFile_def)

lemma accepted_store_other:
  "name \<noteq> data_path s \<Longrightarrow>
     accepted_store coerce now st s i messageTTL name = cleanupOldFiles st now name"
  by (simp add: accepted_store_def cleanupOldFiles_def writeFile_def load_other)

lemma suffix_rev: "suffix xs ys = prefix (rev xs) (rev ys)"
  by (simp add: suffix_to_prefix)

lemma gate_open_cong:
  "st (status_path s) = st' (status_path s) \<Longrightarrow> gate_open st s now = gate_open st' s now"
  by (simp add: gate_open_def loadSessionStatus_def)

subsection \<open>Defaults of a load\<close>





subsection \<open>The queue after a request\<close>

lemma queue_at:
  "st (data_path s) = Some \<lparr>content = stringify_data d, mtimeMs = t\<rparr> \<Longrightarrow>
     queue st s now = filter (live now) (messages d)"
  by (simp add: queue_def stored_messages_def stringify_data_def map_read_stringify)

lemma stored_lastVer_at:
  "st (data_path s) = Some \<lparr>content = stringify_data d, mtimeMs = t\<rparr> \<Longrightarrow>
     stored_lastVer st s = lastVer d"
  by (simp add: stored_lastVer_def stringify_data_def split: option.splits)

lemma queue_after_load: "queue (snd (loadSessionData st s now)) s now = queue st s now"
  by (simp add: load_store queue_writeFile_data load_messages filter_live_queue)

lemma live_new_message: "live now (new_message i v now (sanitizeTTL coerce messageTTL))"
  using sanitizeTTL_range [of coerce messageTTL]
  by (simp add: live_def new_message_def effective_expiresAt_def MIN_MESSAGE_TTL_def)

lemma queue_accepted:
  "queue (accepted_store coerce now st s i messageTTL) s now =
     queue st s now @
     [new_message i (lastVersion st s now + 1) now (sanitizeTTL coerce messageTTL)]"
  using queue_at [of "accepted_store coerce now st s i messageTTL" s _ now now,
      OF accepted_store_data]
  by (simp add: filter_live_queue live_new_message)

lemma find_None_ids: "find (\<lambda>msg. msg_id msg = i) xs = None \<longleftrightarrow> i \<notin> msg_id ` set xs"
  by (auto simp add: find_None_iff)

lemma queue_after_send:
  "queue (snd (POST_send coerce now st s i messageTTL)) s now =
     (if fst (POST_send coerce now st s i messageTTL) =
           accepted_response (lastVersion st s now + 1) now
      then queue st s now @
           [new_message i (lastVersion st s now + 1) now (sanitizeTTL coerce messageTTL)]
      else queue st s now)"
  by (auto simp add: POST_send_gate queue_after_load queue_accepted bad_request_def
      server_error_def not_active_def duplicate_response_def accepted_response_def
      split: option.splits bool.splits)

lemma stored_after_load_next_empty:
  assumes "queue st s now = []"
  shows "stored_messages (snd (loadSessionData_next st s now)) s = []"
proof (cases "expired_present st s now")
  case True
  then show ?thesis
    using assms by (simp add: load_next_store stored_writeFile_data load_next_messages)
next
  case False
  then have "filter (live now) (map (read_message now) (stored_messages st s)) =
      map (read_message now) (stored_messages st s)"
    by (simp add: expired_present_def)
  with assms have "stored_messages st s = []"
    by (simp add: queue_def)
  with False show ?thesis
    by (simp add: load_next_store)
qed

lemma GET_next_empty:
  assumes "s \<noteq> []" and "stored_messages st s = []"
  shows "GET_next t st s = (empty_response t, st)"
  using assms
  by (simp add: GET_next_unfold queue_def load_next_store expired_present_def)

subsection \<open>Runs\<close>

lemma accepted_of_append [simp]: "accepted_of (xs @ ys) = accepted_of xs @ accepted_of ys"
  by (induction xs rule: accepted_of.induct) simp_all

lemma delivered_of_append [simp]: "delivered_of (xs @ ys) = delivered_of xs @ delivered_of ys"
  by (induction xs rule: delivered_of.induct) simp_all

lemma pair_of_read: "pair_of (read_message now x) = pair_of (read_message 0 x)"
  by (simp add: pair_of_def read_message_def)

lemma queue_pairs_subseq: "subseq (map pair_of (queue st s now)) (stored_pairs st s)"
proof -
  have "map pair_of (map (read_message now) xs) = map (\<lambda>x. pair_of (read_message 0 x)) xs" for xs
    using pair_of_read [of now] by (induction xs) simp_all
  moreover have "subseq (map pair_of (filter (live now) ys)) (map pair_of ys)" for ys
    by (simp add: subseq_map)
  ultimately show ?thesis
    unfolding queue_def stored_pairs_def by metis
qed

lemma stored_pairs_at:
  "st (data_path s) = Some \<lparr>content = stringify_data d, mtimeMs = t\<rparr> \<Longrightarrow>
     stored_pairs st s = map pair_of (messages d)"
  by (simp add: stored_pairs_def stored_messages_def stringify_data_def read_stringify o_def)

lemma stored_pairs_cong:
  "st (data_path s) = st' (data_path s) \<Longrightarrow> stored_pairs st s = stored_pairs st' s"
  by (simp add: stored_pairs_def stored_messages_cong [of st s st'])

lemma stored_pairs_load: "subseq (stored_pairs (snd (loadSessionData st s now)) s) (stored_pairs st s)"
proof (cases "expired_present st s now")
  case True
  then have "snd (loadSessionData st s now) (data_path s) =
      Some \<lparr>content = stringify_data (fst (loadSessionData st s now)), mtimeMs = now\<rparr>"
    by (simp add: load_store writeFile_def)
  from stored_pairs_at [of "snd (loadSessionData st s now)" s "fst (loadSessionData st s now)" now,
      OF this]
  show ?thesis
    by (simp add: load_messages queue_pairs_subseq)
next
  case False
  then show ?thesis
    by (simp add: load_store)
qed

lemma stored_pairs_load_next:
  "subseq (stored_pairs (snd (loadSessionData_next st s now)) s) (stored_pairs st s)"
proof (cases "expired_present st s now")
  case True
  then have "snd (loadSessionData_next st s now) (data_path s) =
      Some \<lparr>content = stringify_data (fst (loadSessionData_next st s now)), mtimeMs = now\<rparr>"
    by (simp add: load_next_store writeFile_def)
  from stored_pairs_at [of "snd (loadSessionData_next st s now)" s
      "fst (loadSessionData_next st s now)" now, OF this]
  show ?thesis
    by (simp add: load_next_messages queue_pairs_subseq)
next
  case False
  then show ?thesis
    by (simp add: load_next_store)
qed

lemma stored_pairs_accepted:
  "stored_pairs (accepted_store coerce now st s i messageTTL) s =
     map pair_of (queue st s now) @ [(i, lastVersion st s now + 1)]"
  using stored_pairs_at [of "accepted_store coerce now st s i messageTTL" s _ now,
      OF accepted_store_data]
  by (simp add: pair_of_def new_message_def)

lemma delivered_store_data:
  "delivered_store now st s rest (data_path s) =
     Some \<lparr>content =
             stringify_data
               \<lparr>session = s,
                lastVer =
                  Some (case next_lastVer st s now of Some l \<Rightarrow> l | None \<Rightarrow> highestVersion rest),
                messages = rest\<rparr>,
           mtimeMs = now\<rparr>"
  by (simp add: delivered_store_def writeFile_def)

lemma stored_pairs_delivered:
  "stored_pairs (delivered_store now st s rest) s = map pair_of rest"
  using stored_pairs_at [of "delivered_store now st s rest" s _ now, OF delivered_store_data]
  by simp

lemma accepted_version_simps:
  "accepted_version (bad_request e) = None"
  "accepted_version server_error = None"
  "accepted_version not_active = None"
  "accepted_version (duplicate_response v now) = None"
  "accepted_version (accepted_response v now) = Some v"
  by (simp_all add: accepted_version_def bad_request_def server_error_def not_active_def
      duplicate_response_def accepted_response_def)

lemma accepted_response_neq:
  "bad_request e \<noteq> accepted_response v now"
  "server_error \<noteq> accepted_response v now"
  "not_active \<noteq> accepted_response v now"
  "duplicate_response w now \<noteq> accepted_response v now"
  by (simp_all add: bad_request_def server_error_def not_active_def
      duplicate_response_def accepted_response_def)

lemma step_Send:
  "step coerce s st (now, Send i messageTTL) =
     (if fst (POST_send coerce now st s i messageTTL) =
           accepted_response (lastVersion st s now + 1) now
      then (accepted_store coerce now st s i messageTTL, [Accepted i (lastVersion st s now + 1)])
      else (snd (POST_send coerce now st s i messageTTL), []))"
  by (simp add: POST_send_gate accepted_version_simps accepted_response_neq
      split: option.splits bool.splits)

lemma send_not_accepted_store:
  assumes "fst (POST_send coerce now st s i messageTTL) \<noteq>
           accepted_response (lastVersion st s now + 1) now"
  shows "snd (POST_send coerce now st s i messageTTL) = st \<or>
         snd (POST_send coerce now st s i messageTTL) = snd (loadSessionData st s now)"
  using assms
  by (auto simp add: POST_send_gate split: option.splits bool.splits if_splits)

lemma step_Next:
  "step coerce s st (now, Next) =
     (if s = [] then (st, [])
      else case queue st s now of
             [] \<Rightarrow> (snd (loadSessionData_next st s now), [])
           | m # rest \<Rightarrow> (delivered_store now st s rest, [Delivered (msg_id m) (ver m)]))"
  by (simp add: GET_next_unfold delivered_message_def load_next_messages split: list.splits)

lemma status_keeps_data:
  "snd (POST_status now st s a) (data_path s) = st (data_path s)"
  using paths_differ [of s]
  by (simp add: POST_status_def saveSessionStatus_def writeFile_def split: js_value.splits)

lemma step_subseq:
  assumes "step coerce s st r = (st1, es)"
  shows "subseq (delivered_of es @ stored_pairs st1 s) (stored_pairs st s @ accepted_of es)"
proof (cases r)
  case (Pair now req)
  show ?thesis
  proof (cases req)
    case (Send i messageTTL)
    show ?thesis
    proof (cases "fst (POST_send coerce now st s i messageTTL) =
           accepted_response (lastVersion st s now + 1) now")
      case True
      then have "st1 = accepted_store coerce now st s i messageTTL"
        and "es = [Accepted i (lastVersion st s now + 1)]"
        using assms Pair Send by (simp_all add: step_Send del: step.simps)
      then show ?thesis
        using queue_pairs_subseq [of st s now]
        by (simp add: stored_pairs_accepted list_emb_append_mono)
    next
      case False
      then have st1: "st1 = snd (POST_send coerce now st s i messageTTL)" and es: "es = []"
        using assms Pair Send by (simp_all add: step_Send del: step.simps)
      from send_not_accepted_store [OF False] show ?thesis
        using stored_pairs_load [of st s now] by (auto simp add: st1 es)
    qed
  next
    case Next
    show ?thesis
    proof (cases "s = []")
      case True
      then show ?thesis
        using assms Pair Next by (simp add: step_Next del: step.simps)
    next
      case False
      show ?thesis
      proof (cases "queue st s now")
        case Nil
        then show ?thesis
          using assms Pair Next False stored_pairs_load_next [of st s now]
          by (auto simp add: step_Next simp del: step.simps)
      next
        case (Cons m rest)
        then have "st1 = delivered_store now st s rest" and "es = [Delivered (msg_id m) (ver m)]"
          using assms Pair Next False by (simp_all add: step_Next del: step.simps)
        then show ?thesis
          using queue_pairs_subseq [of st s now] Cons
          by (simp add: stored_pairs_delivered pair_of_def)
      qed
    qed
  next
    case Load
    then show ?thesis
      using assms Pair stored_pairs_load [of st s now] by auto
  next
    case LoadNext
    then show ?thesis
      using assms Pair stored_pairs_load_next [of st s now] by auto
  next
    case (SetActive b)
    then have "st1 = snd (POST_status now st s (JBool b))" and "es = []"
      using assms Pair by simp_all
    then show ?thesis
      using stored_pairs_cong [of "snd (POST_status now st s (JBool b))" s st,
          OF status_keeps_data]
      by simp
  qed
qed

lemma run_subseq:
  "run coerce s st reqs = (st', es) \<Longrightarrow>
     subseq (delivered_of es @ stored_pairs st' s) (stored_pairs st s @ accepted_of es)"
proof (induction reqs arbitrary: st st' es)
  case Nil
  then show ?case by simp
next
  case (Cons r rs)
  obtain st1 es1 where s1: "step coerce s st r = (st1, es1)"
    by (cases "step coerce s st r")
  obtain st2 es2 where s2: "run coerce s st1 rs = (st2, es2)"
    by (cases "run coerce s st1 rs")
  have e: "es = es1 @ es2" and st': "st' = st2"
    using Cons.prems s1 s2 by simp_all
  have a: "subseq (delivered_of es1 @ stored_pairs st1 s) (stored_pairs st s @ accepted_of es1)"
    using s1 by (rule step_subseq)
  have b: "subseq (delivered_of es2 @ stored_pairs st2 s) (stored_pairs st1 s @ accepted_of es2)"
    using s2 by (rule Cons.IH)
  have "subseq (delivered_of es1 @ delivered_of es2 @ stored_pairs st2 s)
          (delivered_of es1 @ stored_pairs st1 s @ accepted_of es2)"
    using b by (simp add: subseq_append')
  also have "subseq (delivered_of es1 @ stored_pairs st1 s @ accepted_of es2)
          (stored_pairs st s @ accepted_of es1 @ accepted_of es2)"
    using a list_emb_append_mono [of "(=)" "delivered_of es1 @ stored_pairs st1 s"
        "stored_pairs st s @ accepted_of es1" "accepted_of es2" "accepted_of es2"]
    by simp
  finally show ?case
    by (simp add: e st')
qed

lemma run_append:
  "run coerce s st (rs1 @ rs2) =
     (let (st1, es1) = run coerce s st rs1;
          (st2, es2) = run coerce s st1 rs2
      in (st2, es1 @ es2))"
  by (induction rs1 arbitrary: st) (simp_all add: split_beta Let_def)

lemma queue_delivered: "queue (delivered_store now st s rest) s now = filter (live now) rest"
  using queue_at [of "delivered_store now st s rest" s _ now now, OF delivered_store_data]
  by simp

lemma stored_messages_delivered:
  "stored_messages (delivered_store now st s rest) s = map stringify_message rest"
  by (simp add: stored_messages_def delivered_store_data stringify_data_def)

lemmas eval_run_defs =
  eval_next_defs gate_open_def accepted_version_def delivered_message_def

lemma scenario_events:
  "snd (run no_conversion ''s'' open_store scenario) =
     [Accepted ''A'' 1, Accepted ''B'' 2, Delivered ''A'' 1, Delivered ''B'' 2]"
proof -
  define sends where
    "sends = [(1000, Send ''A'' JUndefined), (1001, Send ''B'' JUndefined),
              (1002::number, Send ''A'' JUndefined)]"
  define polls where "polls = [(2000::number, Next), (2001, Next), (2002, Next)]"
  define mid where "mid = fst (run no_conversion ''s'' open_store sends)"
  have sc: "scenario = sends @ polls"
    by (simp add: scenario_def sends_def polls_def)
  have e1: "snd (run no_conversion ''s'' open_store sends) = [Accepted ''A'' 1, Accepted ''B'' 2]"
    by (simp add: sends_def eval_run_defs split_beta)
  have d: "mid ''s.json'' =
      Some \<lparr>content =
           JsonObject
             \<lparr>j_session = JStr ''s'', j_active = JUndefined, j_lastUpdate = JUndefined,
              j_lastVer = JNum 2,
              j_messages =
                Array
                  [\<lparr>j_id = Some ''A'', j_ver = Some 1, j_timestamp = Some 1000,
                    j_expiresAt = Some 301000\<rparr>,
                   \<lparr>j_id = Some ''B'', j_ver = Some 2, j_timestamp = Some 1001,
                    j_expiresAt = Some 301001\<rparr>]\<rparr>,
         mtimeMs = 1001\<rparr>"
    by (simp add: mid_def sends_def eval_run_defs split_beta)
  have e2: "snd (run no_conversion ''s'' mid polls) = [Delivered ''A'' 1, Delivered ''B'' 2]"
    by (simp add: polls_def eval_run_defs split_beta d)
  show ?thesis
    unfolding sc run_append
    by (simp add: split_beta e1 e2 mid_def [symmetric])
qed

subsection \<open>The version clock\<close>

lemma foldl_highest:
  "a \<le> foldl (\<lambda>mx message. if ver message > mx then ver message else mx) a ms \<and>
   (\<forall>m\<in>set ms. ver m \<le> foldl (\<lambda>mx message. if ver message > mx then ver message else mx) a ms)"
proof (induction ms arbitrary: a)
  case Nil
  show ?case by simp
next
  case (Cons x xs)
  let ?a' = "if ver x > a then ver x else a"
  have "a \<le> ?a'" and "ver x \<le> ?a'"
    by simp_all
  moreover have "?a' \<le> foldl (\<lambda>mx message. if ver message > mx then ver message else mx) ?a' xs"
    and "\<forall>m\<in>set xs. ver m \<le> foldl (\<lambda>mx message. if ver message > mx then ver message else mx) ?a' xs"
    using Cons.IH [of ?a'] by simp_all
  ultimately show ?case
    by (auto simp del: if_split intro: order_trans)
qed

lemma highestVersion_bounds:
  "0 \<le> highestVersion ms \<and> (\<forall>m\<in>set ms. ver m \<le> highestVersion ms)"
  unfolding highestVersion_def by (rule foldl_highest)



lemma stored_lastVer_load:
  "stored_lastVer st s = Some l \<Longrightarrow> stored_lastVer (snd (loadSessionData st s now)) s = Some l"
  by (simp add: load_store stored_lastVer_writeFile_data load_lastVer_eq)

lemma stored_lastVer_load_next:
  "stored_lastVer st s = Some l \<Longrightarrow> stored_lastVer (snd (loadSessionData_next st s now)) s = Some l"
  by (simp add: load_next_store stored_lastVer_writeFile_data next_lastVer_eq
      next_lastVer_def [symmetric])

lemma stored_lastVer_accepted:
  "stored_lastVer (accepted_store coerce now st s i messageTTL) s = Some (lastVersion st s now + 1)"
  using stored_lastVer_at [of "accepted_store coerce now st s i messageTTL" s _ now,
      OF accepted_store_data]
  by simp

lemma stored_lastVer_delivered:
  "stored_lastVer st s = Some l \<Longrightarrow> stored_lastVer (delivered_store now st s rest) s = Some l"
  using stored_lastVer_at [of "delivered_store now st s rest" s _ now, OF delivered_store_data]
  by (simp add: next_lastVer_eq)

lemma step_clock:
  assumes "step coerce s st r = (st1, es)" and "stored_lastVer st s = Some l"
  shows "(stored_lastVer st1 s = Some l \<and> accepted_of es = []) \<or>
         (stored_lastVer st1 s = Some (l + 1) \<and> (\<exists>i. accepted_of es = [(i, l + 1)]))"
proof (cases r)
  case (Pair now req)
  have lv: "lastVersion st s now = l"
    using assms(2) by (simp add: lastVersion_eq)
  show ?thesis
  proof (cases req)
    case (Send i messageTTL)
    show ?thesis
    proof (cases "fst (POST_send coerce now st s i messageTTL) =
           accepted_response (lastVersion st s now + 1) now")
      case True
      then have "st1 = accepted_store coerce now st s i messageTTL"
        and "es = [Accepted i (lastVersion st s now + 1)]"
        using assms(1) Pair Send by (simp_all add: step_Send del: step.simps)
      then show ?thesis
        by (simp add: stored_lastVer_accepted lv)
    next
      case False
      then have st1: "st1 = snd (POST_send coerce now st s i messageTTL)" and es: "es = []"
        using assms(1) Pair Send by (simp_all add: step_Send del: step.simps)
      from send_not_accepted_store [OF False] show ?thesis
        using stored_lastVer_load [OF assms(2), of now] assms(2) by (auto simp add: st1 es)
    qed
  next
    case Next
    show ?thesis
    proof (cases "s = []")
      case True
      then show ?thesis
        using assms Pair Next by (simp add: step_Next del: step.simps)
    next
      case False
      show ?thesis
      proof (cases "queue st s now")
        case Nil
        then show ?thesis
          using assms Pair Next False stored_lastVer_load_next [OF assms(2), of now]
          by (auto simp add: step_Next simp del: step.simps)
      next
        case (Cons m rest)
        then have "st1 = delivered_store now st s rest" and "es = [Delivered (msg_id m) (ver m)]"
          using assms Pair Next False by (simp_all add: step_Next del: step.simps)
        then show ?thesis
          using stored_lastVer_delivered [OF assms(2), of now rest] by simp
      qed
    qed
  next
    case Load
    then show ?thesis
      using assms Pair stored_lastVer_load [OF assms(2), of now] by auto
  next
    case LoadNext
    then show ?thesis
      using assms Pair stored_lastVer_load_next [OF assms(2), of now] by auto
  next
    case (SetActive b)
    then have "st1 = snd (POST_status now st s (JBool b))" and "es = []"
      using assms Pair by simp_all
    then show ?thesis
      using stored_lastVer_cong [of "snd (POST_status now st s (JBool b))" s st,
          OF status_keeps_data] assms(2)
      by simp
  qed
qed

lemma run_clock:
  "run coerce s st reqs = (st', es) \<Longrightarrow> stored_lastVer st s = Some l \<Longrightarrow>
     \<exists>l'. stored_lastVer st' s = Some l' \<and> l \<le> l' \<and>
          sorted_wrt (<) (map snd (accepted_of es)) \<and>
          (\<forall>v\<in>set (map snd (accepted_of es)). l < v \<and> v \<le> l')"
proof (induction reqs arbitrary: st st' es l)
  case Nil
  then show ?case by simp
next
  case (Cons r rs)
  obtain st1 es1 where s1: "step coerce s st r = (st1, es1)"
    by (cases "step coerce s st r")
  obtain st2 es2 where s2: "run coerce s st1 rs = (st2, es2)"
    by (cases "run coerce s st1 rs")
  have e: "es = es1 @ es2" and st': "st' = st2"
    using Cons.prems(1) s1 s2 by simp_all
  from step_clock [OF s1 Cons.prems(2)]
  obtain l1 where l1: "stored_lastVer st1 s = Some l1" and le: "l \<le> l1"
    and a1: "accepted_of es1 = [] \<or> (\<exists>i. accepted_of es1 = [(i, l1)] \<and> l < l1)"
    by auto
  from Cons.IH [OF s2 l1]
  obtain l' where l': "stored_lastVer st2 s = Some l'" and le': "l1 \<le> l'"
    and so: "sorted_wrt (<) (map snd (accepted_of es2))"
    and b: "\<forall>v\<in>set (map snd (accepted_of es2)). l1 < v \<and> v \<le> l'"
    by blast
  have "sorted_wrt (<) (map snd (accepted_of es1 @ accepted_of es2))"
    using a1 so b by (auto simp add: sorted_wrt_append)
  moreover have "\<forall>v\<in>set (map snd (accepted_of es1 @ accepted_of es2)). l < v \<and> v \<le> l'"
    using a1 b le le' by auto
  ultimately show ?case
    using l' le le' by (simp add: e st')
qed

section \<open>C1: duplicate suppression\<close>

text \<open>
  C1. For a send request (session and id given) on a session whose gate is open: if the
  queue holds a live message with the id of the request, \<open>m\<close> being the earliest, the send
  answers 200 with \<open>ok: true\<close>, the version of \<open>m\<close> and \<open>duplicate: true\<close>; it stores nothing
  but what the load's purge wrote, so the queue of live messages is as before, and the
  whole store is as before when no stored message had expired. A send is accepted only
  when no live message has its id, and then appends one message to the live queue. So a
  queue in which the live messages have distinct ids still has distinct ids after any
  send.
\<close>

theorem C1_duplicate_suppression:
  "(s \<noteq> [] \<and> i \<noteq> [] \<and> gate_open st s now = Some True \<and>
    find (\<lambda>msg. msg_id msg = i) (queue st s now) = Some m \<longrightarrow>
      POST_send coerce now st s i messageTTL =
        ((200, [(''ok'', JBool True), (''ver'', JNum (ver m)), (''time'', JNum now),
                (''duplicate'', JBool True)]),
         snd (loadSessionData st s now)) \<and>
      m \<in> set (queue st s now) \<and> msg_id m = i \<and>
      queue (snd (POST_send coerce now st s i messageTTL)) s now = queue st s now \<and>
      (\<not> expired_present st s now \<longrightarrow> snd (POST_send coerce now st s i messageTTL) = st)) \<and>
   (fst (POST_send coerce now st s i messageTTL) = accepted_response v t \<longrightarrow>
      i \<notin> msg_id ` set (queue st s now) \<and>
      queue (snd (POST_send coerce now st s i messageTTL)) s now =
        queue st s now @ [new_message i v now (sanitizeTTL coerce messageTTL)]) \<and>
   (distinct (map msg_id (queue st s now)) \<longrightarrow>
      distinct (map msg_id (queue (snd (POST_send coerce now st s i messageTTL)) s now)))"
proof -
  have dup: "POST_send coerce now st s i messageTTL =
        ((200, [(''ok'', JBool True), (''ver'', JNum (ver m)), (''time'', JNum now),
                (''duplicate'', JBool True)]),
         snd (loadSessionData st s now)) \<and>
      m \<in> set (queue st s now) \<and> msg_id m = i \<and>
      queue (snd (POST_send coerce now st s i messageTTL)) s now = queue st s now \<and>
      (\<not> expired_present st s now \<longrightarrow> snd (POST_send coerce now st s i messageTTL) = st)"
    if h: "s \<noteq> [] \<and> i \<noteq> [] \<and> gate_open st s now = Some True \<and>
           find (\<lambda>msg. msg_id msg = i) (queue st s now) = Some m"
  proof -
    have p: "POST_send coerce now st s i messageTTL =
        (duplicate_response (ver m) now, snd (loadSessionData st s now))"
      using h by (simp add: POST_send_gate)
    have m: "m \<in> set (queue st s now) \<and> msg_id m = i"
      using h by (auto simp add: find_Some_iff)
    have q: "queue (snd (POST_send coerce now st s i messageTTL)) s now = queue st s now"
      by (simp add: p queue_after_load)
    have e: "\<not> expired_present st s now \<longrightarrow> snd (POST_send coerce now st s i messageTTL) = st"
      by (simp add: p load_store)
    have r: "POST_send coerce now st s i messageTTL =
        ((200, [(''ok'', JBool True), (''ver'', JNum (ver m)), (''time'', JNum now),
                (''duplicate'', JBool True)]),
         snd (loadSessionData st s now))"
      by (simp add: p duplicate_response_def)
    show ?thesis
      using m q e r by blast
  qed
  have acc: "i \<notin> msg_id ` set (queue st s now) \<and>
      queue (snd (POST_send coerce now st s i messageTTL)) s now =
        queue st s now @ [new_message i v now (sanitizeTTL coerce messageTTL)]"
    if a: "fst (POST_send coerce now st s i messageTTL) = accepted_response v t" for v t
  proof -
    from POST_send_acceptedD [OF a]
    have v: "v = lastVersion st s now + 1"
      and st': "snd (POST_send coerce now st s i messageTTL) = accepted_store coerce now st s i messageTTL"
      and f: "find (\<lambda>msg. msg_id msg = i) (queue st s now) = None"
      by simp_all
    show ?thesis
      using f by (simp add: st' queue_accepted v find_None_ids)
  qed
  have inv: "distinct (map msg_id (queue (snd (POST_send coerce now st s i messageTTL)) s now))"
    if d: "distinct (map msg_id (queue st s now))"
  proof (cases "fst (POST_send coerce now st s i messageTTL) =
           accepted_response (lastVersion st s now + 1) now")
    case True
    from acc [of "lastVersion st s now + 1" now] True d show ?thesis
      by (simp add: new_message_def)
  next
    case False
    with d show ?thesis
      by (simp add: queue_after_send)
  qed
  show ?thesis
    using dup acc inv by blast
qed

text \<open>
  On \<open>queue_store\<close> at 250000 both stored messages are live and have distinct ids: a send
  of \<open>B\<close> is a duplicate of version 2 and leaves the store as it was.
\<close>

theorem C1_duplicate_suppression_witness:
  "gate_open queue_store ''s'' 250000 = Some True \<and>
   find (\<lambda>msg. msg_id msg = ''B'') (queue queue_store ''s'' 250000) =
     Some \<lparr>msg_id = ''B'', ver = 2, timestamp = 200000, expiresAt = Some 500000\<rparr> \<and>
   POST_send no_conversion 250000 queue_store ''s'' ''B'' JUndefined =
     ((200, [(''ok'', JBool True), (''ver'', JNum 2), (''time'', JNum 250000),
             (''duplicate'', JBool True)]),
      queue_store) \<and>
   distinct (map msg_id (queue queue_store ''s'' 250000)) \<and>
   distinct (map msg_id
     (queue (snd (POST_send no_conversion 250000 queue_store ''s'' ''B'' JUndefined)) ''s'' 250000)) \<and>
   fst (POST_send no_conversion 250000 queue_store ''s'' ''C'' JUndefined) =
     accepted_response 3 250000 \<and>
   map msg_id
     (queue (snd (POST_send no_conversion 250000 queue_store ''s'' ''C'' JUndefined)) ''s'' 250000) =
     [''A'', ''B'', ''C'']"
proof -
  have g: "gate_open queue_store ''s'' 250000 = Some True"
    by (simp add: gate_open_def eval_next_defs)
  have q: "queue queue_store ''s'' 250000 =
     [\<lparr>msg_id = ''A'', ver = 1, timestamp = 0, expiresAt = None\<rparr>,
      \<lparr>msg_id = ''B'', ver = 2, timestamp = 200000, expiresAt = Some 500000\<rparr>]"
    by (simp add: eval_next_defs)
  have e: "\<not> expired_present queue_store ''s'' 250000"
    by (simp add: eval_next_defs)
  have l: "snd (loadSessionData queue_store ''s'' 250000) = queue_store"
    by (simp add: load_store e)
  have a: "fst (POST_send no_conversion 250000 queue_store ''s'' ''C'' JUndefined) =
     accepted_response 3 250000"
  proof -
    have "lastVersion queue_store ''s'' 250000 = 2"
      by (simp add: lastVersion_eq stored_lastVer_def queue_store_def data_path_def
          status_path_def)
    then show ?thesis
      by (simp add: POST_send_gate g q)
  qed
  show ?thesis
    using C1_duplicate_suppression [of "''s''" "''B''" queue_store 250000
        "\<lparr>msg_id = ''B'', ver = 2, timestamp = 200000, expiresAt = Some 500000\<rparr>"
        no_conversion JUndefined 3 250000]
      C1_duplicate_suppression [of "''s''" "''C''" queue_store 250000
        "\<lparr>msg_id = ''B'', ver = 2, timestamp = 200000, expiresAt = Some 500000\<rparr>"
        no_conversion JUndefined 3 250000]
      g q e l a
    by (simp add: new_message_def)
qed

section \<open>C2: lastVersion as a logical clock\<close>

text \<open>
  C2 as stated fails for a stored record that lacks \<open>lastVer\<close>. The record holds a message
  of version 3 and no \<open>lastVer\<close>: a load at 2000 defaults lastVersion to 3, but at 400000
  the message has expired, the load purges it before it defaults the field, and
  lastVersion is 0; the send then accepted gets version 1, and lastVersion is 1, below
  the version 3 of a message accepted earlier.
\<close>

theorem C2_counterexample:
  "stored_pairs legacy_queue_store ''s'' = [(''A'', 3)] \<and>
   lastVersion legacy_queue_store ''s'' 2000 = 3 \<and>
   lastVersion legacy_queue_store ''s'' 400000 = 0 \<and>
   fst (POST_send no_conversion 400000 legacy_queue_store ''s'' ''B'' JUndefined) =
     accepted_response 1 400000 \<and>
   stored_lastVer (snd (POST_send no_conversion 400000 legacy_queue_store ''s'' ''B'' JUndefined)) ''s'' =
     Some 1"
proof -
  have p: "stored_pairs legacy_queue_store ''s'' = [(''A'', 3)]"
    by (simp add: stored_pairs_def pair_of_def eval_next_defs legacy_queue_store_def)
  have l1: "lastVersion legacy_queue_store ''s'' 2000 = 3"
    by (simp add: lastVersion_def eval_next_defs legacy_queue_store_def)
  have l2: "lastVersion legacy_queue_store ''s'' 400000 = 0"
    by (simp add: lastVersion_def eval_next_defs legacy_queue_store_def)
  have a: "fst (POST_send no_conversion 400000 legacy_queue_store ''s'' ''B'' JUndefined) =
     accepted_response 1 400000"
    by (simp add: eval_next_defs legacy_queue_store_def)
  have s: "stored_lastVer (snd (POST_send no_conversion 400000 legacy_queue_store ''s'' ''B'' JUndefined)) ''s'' =
     Some 1"
    using POST_send_acceptedD [OF a] by (simp add: stored_lastVer_accepted l2)
  show ?thesis
    using p l1 l2 a s by simp
qed

text \<open>
  C2, as the code has it. A stored record with a numeric \<open>lastVer\<close> (a session without a
  data file counts as one, with 0) has that number as its lastVersion at every instant.
  Every accepted send gets version lastVersion + 1 and stores it as the new \<open>lastVer\<close>.
  Over any run of sends, nexts, loads and status writes of a session that starts from
  such a record, the record keeps a numeric \<open>lastVer\<close>, the lastVersion at the end is at
  least the one at the beginning, the versions accepted during the run increase strictly
  and each lies above the initial lastVersion and at or below the final one, whether or
  not its message has expired or been consumed in between. For a stored record that has
  a messages array and no numeric \<open>lastVer\<close>, the send route's load defaults lastVersion
  to the highest version among the messages that survive the purge (at least 0 and at
  least the version of each of them).
\<close>

theorem C2_logical_clock:
  "(st (data_path s) = None \<longrightarrow> stored_lastVer st s = Some 0) \<and>
   (stored_lastVer st s = Some l \<longrightarrow> lastVersion st s now = l) \<and>
   (fst (POST_send coerce now st s i messageTTL) = accepted_response v t \<longrightarrow>
      v = lastVersion st s now + 1 \<and>
      stored_lastVer (snd (POST_send coerce now st s i messageTTL)) s = Some v) \<and>
   (stored_lastVer st s = Some l \<and> run coerce s st reqs = (st', events) \<longrightarrow>
      stored_lastVer st' s \<noteq> None \<and>
      l \<le> lastVersion st' s t' \<and>
      sorted_wrt (<) (map snd (accepted_of events)) \<and>
      (\<forall>p\<in>set (accepted_of events). l < snd p \<and> snd p \<le> lastVersion st' s t')) \<and>
   (stored_lastVer st s = None \<longrightarrow>
      lastVersion st s now = highestVersion (queue st s now) \<and>
      0 \<le> lastVersion st s now \<and>
      (\<forall>x\<in>set (queue st s now). ver x \<le> lastVersion st s now))"
proof -
  have z: "st (data_path s) = None \<longrightarrow> stored_lastVer st s = Some 0"
    by (simp add: stored_lastVer_def)
  have c: "stored_lastVer st s = Some l \<longrightarrow> lastVersion st s now = l"
    by (simp add: lastVersion_eq)
  have a: "fst (POST_send coerce now st s i messageTTL) = accepted_response v t \<longrightarrow>
      v = lastVersion st s now + 1 \<and>
      stored_lastVer (snd (POST_send coerce now st s i messageTTL)) s = Some v"
  proof
    assume acc: "fst (POST_send coerce now st s i messageTTL) = accepted_response v t"
    from POST_send_acceptedD [OF acc] show "v = lastVersion st s now + 1 \<and>
      stored_lastVer (snd (POST_send coerce now st s i messageTTL)) s = Some v"
      by (simp add: stored_lastVer_accepted)
  qed
  have r: "stored_lastVer st s = Some l \<and> run coerce s st reqs = (st', events) \<longrightarrow>
      stored_lastVer st' s \<noteq> None \<and>
      l \<le> lastVersion st' s t' \<and>
      sorted_wrt (<) (map snd (accepted_of events)) \<and>
      (\<forall>p\<in>set (accepted_of events). l < snd p \<and> snd p \<le> lastVersion st' s t')"
  proof
    assume h: "stored_lastVer st s = Some l \<and> run coerce s st reqs = (st', events)"
    then have "run coerce s st reqs = (st', events)" and "stored_lastVer st s = Some l"
      by simp_all
    from run_clock [OF this]
    obtain l' where l': "stored_lastVer st' s = Some l'" and "l \<le> l'"
      and "sorted_wrt (<) (map snd (accepted_of events))"
      and "\<forall>v\<in>set (map snd (accepted_of events)). l < v \<and> v \<le> l'"
      by blast
    then show "stored_lastVer st' s \<noteq> None \<and>
      l \<le> lastVersion st' s t' \<and>
      sorted_wrt (<) (map snd (accepted_of events)) \<and>
      (\<forall>p\<in>set (accepted_of events). l < snd p \<and> snd p \<le> lastVersion st' s t')"
      by (simp add: lastVersion_eq)
  qed
  have d: "stored_lastVer st s = None \<longrightarrow>
      lastVersion st s now = highestVersion (queue st s now) \<and>
      0 \<le> lastVersion st s now \<and>
      (\<forall>x\<in>set (queue st s now). ver x \<le> lastVersion st s now)"
    using highestVersion_bounds [of "queue st s now"] by (simp add: lastVersion_eq)
  show ?thesis
    by (intro conjI; fact)
qed

text \<open>
  The scenario on a fresh active session: versions 1 and 2 are accepted, and lastVersion
  is 2 at the end, after both messages have been consumed. The record of
  \<open>legacy_queue_store\<close>, which has no \<open>lastVer\<close>, loads with lastVersion 3 at 2000.
\<close>

theorem C2_logical_clock_witness:
  "stored_lastVer open_store ''s'' = Some 0 \<and>
   lastVersion open_store ''s'' 1000 = 0 \<and>
   fst (POST_send no_conversion 1000 open_store ''s'' ''A'' JUndefined) = accepted_response 1 1000 \<and>
   stored_lastVer (snd (POST_send no_conversion 1000 open_store ''s'' ''A'' JUndefined)) ''s'' = Some 1 \<and>
   accepted_of (snd (run no_conversion ''s'' open_store scenario)) = [(''A'', 1), (''B'', 2)] \<and>
   0 \<le> lastVersion (fst (run no_conversion ''s'' open_store scenario)) ''s'' 3000 \<and>
   2 \<le> lastVersion (fst (run no_conversion ''s'' open_store scenario)) ''s'' 3000 \<and>
   stored_lastVer legacy_queue_store ''s'' = None \<and>
   lastVersion legacy_queue_store ''s'' 2000 = 3"
proof -
  have d: "open_store (data_path ''s'') = None"
    by (simp add: open_store_def data_path_def status_path_def)
  have a: "fst (POST_send no_conversion 1000 open_store ''s'' ''A'' JUndefined) = accepted_response 1 1000"
    by (simp add: eval_defs)
  have e: "snd (run no_conversion ''s'' open_store scenario) =
     [Accepted ''A'' 1, Accepted ''B'' 2, Delivered ''A'' 1, Delivered ''B'' 2]"
    by (rule scenario_events)
  then have r: "run no_conversion ''s'' open_store scenario =
     (fst (run no_conversion ''s'' open_store scenario),
      [Accepted ''A'' 1, Accepted ''B'' 2, Delivered ''A'' 1, Delivered ''B'' 2])"
    by (metis prod.collapse)
  have n: "stored_lastVer legacy_queue_store ''s'' = None"
    by (simp add: stored_lastVer_def legacy_queue_store_def data_path_def status_path_def)
  have q: "queue legacy_queue_store ''s'' 2000 =
      [\<lparr>msg_id = ''A'', ver = 3, timestamp = 1000, expiresAt = None\<rparr>]"
    by (simp add: eval_next_defs legacy_queue_store_def)
  have h: "highestVersion [\<lparr>msg_id = ''A'', ver = 3, timestamp = 1000, expiresAt = None\<rparr>] = 3"
    by (simp add: highestVersion_def)
  show ?thesis
    using C2_logical_clock [of open_store "''s''" 0 1000 no_conversion "''A''" JUndefined 1 1000
        scenario "fst (run no_conversion ''s'' open_store scenario)"
        "[Accepted ''A'' 1, Accepted ''B'' 2, Delivered ''A'' 1, Delivered ''B'' 2]" 3000]
      C2_logical_clock [of legacy_queue_store "''s''" 0 2000 no_conversion "''A''" JUndefined 1 1000
        scenario "fst (run no_conversion ''s'' open_store scenario)"
        "[Accepted ''A'' 1, Accepted ''B'' 2, Delivered ''A'' 1, Delivered ''B'' 2]" 3000]
      d a e r n q h
    by simp
qed

text \<open>
  The next route on the same record, while its message is live: the load leaves \<open>lastVer\<close>
  undefined, the message of version 3 is delivered, and the save computes \<open>lastVer\<close> from
  the messages that remain, none, so the stored \<open>lastVer\<close> is 0. (The send route's load
  would have set it to 3 before anything was removed.)
\<close>

lemma next_on_record_without_lastVer:
  "next_lastVer legacy_queue_store ''s'' 2000 = None \<and>
   delivered_message 2000 legacy_queue_store ''s'' =
     Some \<lparr>msg_id = ''A'', ver = 3, timestamp = 1000, expiresAt = None\<rparr> \<and>
   stored_lastVer (snd (GET_next 2000 legacy_queue_store ''s'')) ''s'' = Some 0"
  by (simp add: next_lastVer_def delivered_message_def stored_lastVer_def eval_next_defs
      legacy_queue_store_def)

section \<open>C3: consume-once delivery in order\<close>

text \<open>
  C3. On a session (named in the request) whose queue of live messages is \<open>m\<close> followed by
  \<open>rest\<close>, next answers with the id of \<open>m\<close>, the earliest stored live message, and stores
  exactly \<open>rest\<close>: \<open>m\<close> is no longer in the record. An accepted send appends its message at
  the end of the live queue. Over any run of requests of the session, the messages
  delivered, in the order of their delivery, form a subsequence of the messages stored at
  the beginning followed by the messages accepted during the run in the order of their
  acceptance: each queued message is delivered at most once, and deliveries follow the
  order of acceptance. (A run splits at any point into a first run and a second one from
  the store the first one leaves, so this holds at every moment of a run.)
\<close>

theorem C3_consume_once_fifo:
  "(s \<noteq> [] \<and> queue st s now = m # rest \<longrightarrow>
      fst (GET_next now st s) =
        (200, [(''ok'', JBool True), (''id'', JStr (msg_id m)), (''time'', JNum now)]) \<and>
      stored_messages (snd (GET_next now st s)) s = map stringify_message rest \<and>
      queue (snd (GET_next now st s)) s now = rest) \<and>
   (fst (POST_send coerce now st s i messageTTL) = accepted_response v t \<longrightarrow>
      queue (snd (POST_send coerce now st s i messageTTL)) s now =
        queue st s now @ [new_message i v now (sanitizeTTL coerce messageTTL)]) \<and>
   (run coerce s st reqs = (st', events) \<longrightarrow>
      subseq (delivered_of events) (stored_pairs st s @ accepted_of events)) \<and>
   fst (run coerce s st (reqs1 @ reqs2)) =
     fst (run coerce s (fst (run coerce s st reqs1)) reqs2) \<and>
   snd (run coerce s st (reqs1 @ reqs2)) =
     snd (run coerce s st reqs1) @ snd (run coerce s (fst (run coerce s st reqs1)) reqs2)"
proof -
  have n: "fst (GET_next now st s) =
        (200, [(''ok'', JBool True), (''id'', JStr (msg_id m)), (''time'', JNum now)]) \<and>
      stored_messages (snd (GET_next now st s)) s = map stringify_message rest \<and>
      queue (snd (GET_next now st s)) s now = rest"
    if h: "s \<noteq> [] \<and> queue st s now = m # rest"
  proof -
    have g: "GET_next now st s = (delivery_response (msg_id m) now, delivered_store now st s rest)"
      using h by (simp add: GET_next_unfold)
    have "filter (live now) (m # rest) = m # rest"
      using h filter_live_queue [of now st s] by simp
    then have "\<forall>x\<in>set (m # rest). live now x"
      unfolding filter_id_conv .
    then have "filter (live now) rest = rest"
      by simp
    then show ?thesis
      by (simp add: g delivery_response_def stored_messages_delivered queue_delivered)
  qed
  have a: "queue (snd (POST_send coerce now st s i messageTTL)) s now =
        queue st s now @ [new_message i v now (sanitizeTTL coerce messageTTL)]"
    if acc: "fst (POST_send coerce now st s i messageTTL) = accepted_response v t"
    using POST_send_acceptedD [OF acc] by (simp add: queue_accepted)
  have r: "subseq (delivered_of events) (stored_pairs st s @ accepted_of events)"
    if "run coerce s st reqs = (st', events)"
  proof -
    have "subseq (delivered_of events) (delivered_of events @ stored_pairs st' s)"
      by (rule prefix_imp_subseq) simp
    also have "subseq (delivered_of events @ stored_pairs st' s)
        (stored_pairs st s @ accepted_of events)"
      using that by (rule run_subseq)
    finally show ?thesis .
  qed
  have sp: "fst (run coerce s st (reqs1 @ reqs2)) =
       fst (run coerce s (fst (run coerce s st reqs1)) reqs2) \<and>
     snd (run coerce s st (reqs1 @ reqs2)) =
       snd (run coerce s st reqs1) @ snd (run coerce s (fst (run coerce s st reqs1)) reqs2)"
    by (simp add: run_append split_beta)
  show ?thesis
    using n a r sp by blast
qed

text \<open>
  On \<open>queue_store\<close> at 250000 next delivers \<open>A\<close> and stores \<open>B\<close> alone. The scenario on a
  fresh active session accepts \<open>A\<close> as version 1 and \<open>B\<close> as version 2, takes the second
  \<open>A\<close> as a duplicate, and delivers \<open>A\<close>, then \<open>B\<close>, then nothing.
\<close>

theorem C3_consume_once_fifo_witness:
  "queue queue_store ''s'' 250000 =
     [\<lparr>msg_id = ''A'', ver = 1, timestamp = 0, expiresAt = None\<rparr>,
      \<lparr>msg_id = ''B'', ver = 2, timestamp = 200000, expiresAt = Some 500000\<rparr>] \<and>
   fst (GET_next 250000 queue_store ''s'') =
     (200, [(''ok'', JBool True), (''id'', JStr ''A''), (''time'', JNum 250000)]) \<and>
   queue (snd (GET_next 250000 queue_store ''s'')) ''s'' 250000 =
     [\<lparr>msg_id = ''B'', ver = 2, timestamp = 200000, expiresAt = Some 500000\<rparr>] \<and>
   snd (run no_conversion ''s'' open_store scenario) =
     [Accepted ''A'' 1, Accepted ''B'' 2, Delivered ''A'' 1, Delivered ''B'' 2] \<and>
   subseq [(''A'', 1), (''B'', 2)] (stored_pairs open_store ''s'' @ [(''A'', 1), (''B'', 2)])"
proof -
  have q: "queue queue_store ''s'' 250000 =
     [\<lparr>msg_id = ''A'', ver = 1, timestamp = 0, expiresAt = None\<rparr>,
      \<lparr>msg_id = ''B'', ver = 2, timestamp = 200000, expiresAt = Some 500000\<rparr>]"
    by (simp add: eval_next_defs)
  have e: "snd (run no_conversion ''s'' open_store scenario) =
     [Accepted ''A'' 1, Accepted ''B'' 2, Delivered ''A'' 1, Delivered ''B'' 2]"
    by (rule scenario_events)
  then have r: "run no_conversion ''s'' open_store scenario =
     (fst (run no_conversion ''s'' open_store scenario),
      [Accepted ''A'' 1, Accepted ''B'' 2, Delivered ''A'' 1, Delivered ''B'' 2])"
    by (metis prod.collapse)
  have n: "''s'' \<noteq> []"
    by simp
  show ?thesis
    using C3_consume_once_fifo [of "''s''" queue_store 250000
        "\<lparr>msg_id = ''A'', ver = 1, timestamp = 0, expiresAt = None\<rparr>"
        "[\<lparr>msg_id = ''B'', ver = 2, timestamp = 200000, expiresAt = Some 500000\<rparr>]"
        no_conversion "''X''" JUndefined 0 0 scenario
        "fst (run no_conversion ''s'' open_store scenario)"
        "[Accepted ''A'' 1, Accepted ''B'' 2, Delivered ''A'' 1, Delivered ''B'' 2]" "[]" "[]"]
      C3_consume_once_fifo [of "''s''" open_store 250000
        "\<lparr>msg_id = ''A'', ver = 1, timestamp = 0, expiresAt = None\<rparr>"
        "[\<lparr>msg_id = ''B'', ver = 2, timestamp = 200000, expiresAt = Some 500000\<rparr>]"
        no_conversion "''X''" JUndefined 0 0 scenario
        "fst (run no_conversion ''s'' open_store scenario)"
        "[Accepted ''A'' 1, Accepted ''B'' 2, Delivered ''A'' 1, Delivered ''B'' 2]" "[]" "[]"]
      q e r n
    by simp
qed

section \<open>C4: a send while the gate is closed\<close>

text \<open>
  C4. A send request (with its session and id) for a session whose gate is inactive is
  answered 403 with \<open>ok: false\<close> and \<open>sessionActive: false\<close>, and the whole store, so the
  session's queue and lastVersion, is left as it was. A session without a status record
  reads as inactive. The other error answers (400, 500) carry no \<open>sessionActive\<close> field.
\<close>

theorem C4_gate_closed:
  assumes "s \<noteq> []" and "i \<noteq> []"
    and "gate_open st s now = Some False"
  shows "POST_send coerce now st s i messageTTL = (not_active, st) \<and>
         fst not_active = 403 \<and>
         map_of (snd not_active) ''ok'' = Some (JBool False) \<and>
         map_of (snd not_active) ''sessionActive'' = Some (JBool False) \<and>
         map_of (snd server_error) ''sessionActive'' = None \<and>
         map_of (snd (bad_request e)) ''sessionActive'' = None \<and>
         (st' (status_path s) = None \<longrightarrow> gate_open st' s now = Some False)"
  using assms
  by (simp add: POST_send_gate gate_absent not_active_def server_error_def bad_request_def)

text \<open>A send to a session that has no record at all, and one to a session switched off.\<close>

theorem C4_gate_closed_witness:
  "POST_send no_conversion 1000 Map.empty ''s'' ''X'' JUndefined = (not_active, Map.empty) \<and>
   gate_open closed_store ''s'' 1000 = Some False \<and>
   POST_send no_conversion 1000 closed_store ''s'' ''X'' JUndefined = (not_active, closed_store)"
proof -
  have a: "gate_open Map.empty ''s'' 1000 = Some False"
    by (simp add: gate_absent)
  have b: "gate_open closed_store ''s'' 1000 = Some False"
    by (simp add: gate_open_def loadSessionStatus_def closed_store_def status_record_def)
  show ?thesis
    using C4_gate_closed [of "''s''" "''X''" Map.empty 1000 no_conversion JUndefined "''e''" Map.empty, OF _ _ a]
      C4_gate_closed [of "''s''" "''X''" closed_store 1000 no_conversion JUndefined "''e''" Map.empty, OF _ _ b]
      b
    by simp
qed

section \<open>C5: the expiry purge\<close>

text \<open>
  C5. The purge keeps exactly the messages whose expiry lies after \<open>now\<close> and reports
  whether it removed any; a message without a stored \<open>expiresAt\<close> expires at its timestamp
  plus five minutes. Both loads (the send route's and the next route's) hand on only the
  purged queue, so an id delivered by next and a version answered as a duplicate by send
  belong to a stored message with expiry after \<open>now\<close>. A load writes the record back
  when the purge removed something and leaves the store alone otherwise.
\<close>

theorem C5_expiry_purge:
  "snd (purgeExpiredMessages d now) =
     d\<lparr>messages := filter (\<lambda>m. effective_expiresAt m > now) (messages d)\<rparr> \<and>
   fst (purgeExpiredMessages d now) = (\<exists>m\<in>set (messages d). effective_expiresAt m \<le> now) \<and>
   (expiresAt m = None \<longrightarrow> effective_expiresAt m = timestamp m + 5 * 60 * 1000) \<and>
   (expiresAt m = Some e \<longrightarrow> effective_expiresAt m = e) \<and>
   messages (fst (loadSessionData st s now)) =
     filter (\<lambda>m. effective_expiresAt m > now) (map (read_message now) (stored_messages st s)) \<and>
   messages (fst (loadSessionData_next st s now)) =
     filter (\<lambda>m. effective_expiresAt m > now) (map (read_message now) (stored_messages st s)) \<and>
   (fst (GET_next now st s) = delivery_response i t \<longrightarrow>
      (\<exists>x\<in>set (map (read_message now) (stored_messages st s)).
         msg_id x = i \<and> effective_expiresAt x > now)) \<and>
   (fst (POST_send coerce now st s i messageTTL) = duplicate_response v t \<longrightarrow>
      (\<exists>x\<in>set (map (read_message now) (stored_messages st s)).
         msg_id x = i \<and> ver x = v \<and> effective_expiresAt x > now)) \<and>
   expired_present st s now =
     (\<exists>x\<in>set (map (read_message now) (stored_messages st s)). effective_expiresAt x \<le> now) \<and>
   (expired_present st s now \<longrightarrow>
      snd (loadSessionData st s now) =
        writeFile st (data_path s) (stringify_data (fst (loadSessionData st s now))) now \<and>
      snd (loadSessionData_next st s now) =
        writeFile st (data_path s) (stringify_data (fst (loadSessionData_next st s now))) now) \<and>
   (\<not> expired_present st s now \<longrightarrow>
      snd (loadSessionData st s now) = st \<and> snd (loadSessionData_next st s now) = st)"
proof -
  have p1: "snd (purgeExpiredMessages d now) =
     d\<lparr>messages := filter (\<lambda>m. effective_expiresAt m > now) (messages d)\<rparr>"
    by (simp add: purgeExpiredMessages_def Let_def)
  have p2: "fst (purgeExpiredMessages d now) = (\<exists>m\<in>set (messages d). effective_expiresAt m \<le> now)"
    by (auto simp add: purge_removed live_def not_less)
  have e: "(expiresAt m = None \<longrightarrow> effective_expiresAt m = timestamp m + 5 * 60 * 1000) \<and>
           (expiresAt m = Some e \<longrightarrow> effective_expiresAt m = e)"
    by (simp add: effective_expiresAt_def DEFAULT_MESSAGE_TTL_def)
  have l1: "messages (fst (loadSessionData st s now)) =
     filter (\<lambda>m. effective_expiresAt m > now) (map (read_message now) (stored_messages st s))"
    by (simp add: load_messages queue_def live_fun)
  have l2: "messages (fst (loadSessionData_next st s now)) =
     filter (\<lambda>m. effective_expiresAt m > now) (map (read_message now) (stored_messages st s))"
    by (simp add: load_next_messages queue_def live_fun)
  have n: "\<exists>x\<in>set (map (read_message now) (stored_messages st s)).
         msg_id x = i \<and> effective_expiresAt x > now"
    if "fst (GET_next now st s) = delivery_response i t"
  proof -
    from GET_next_deliveryD [OF that] obtain x rest
      where "queue st s now = x # rest" and "msg_id x = i" by blast
    then have "x \<in> set (queue st s now)" by simp
    with \<open>msg_id x = i\<close> show ?thesis
      unfolding in_queue by blast
  qed
  have dup: "\<exists>x\<in>set (map (read_message now) (stored_messages st s)).
         msg_id x = i \<and> ver x = v \<and> effective_expiresAt x > now"
    if "fst (POST_send coerce now st s i messageTTL) = duplicate_response v t"
  proof -
    from POST_send_duplicateD [OF that] obtain x
      where f: "find (\<lambda>msg. msg_id msg = i) (queue st s now) = Some x" and "ver x = v" by blast
    from f have "x \<in> set (queue st s now)" and "msg_id x = i"
      by (auto simp add: find_Some_iff)
    with \<open>ver x = v\<close> show ?thesis
      unfolding in_queue by blast
  qed
  have ex: "expired_present st s now =
     (\<exists>x\<in>set (map (read_message now) (stored_messages st s)). effective_expiresAt x \<le> now)"
    unfolding expired_present_def live_def by (simp add: not_less)
  have w: "expired_present st s now \<longrightarrow>
      snd (loadSessionData st s now) =
        writeFile st (data_path s) (stringify_data (fst (loadSessionData st s now))) now \<and>
      snd (loadSessionData_next st s now) =
        writeFile st (data_path s) (stringify_data (fst (loadSessionData_next st s now))) now"
    by (simp add: load_store load_next_store)
  have nw: "\<not> expired_present st s now \<longrightarrow>
      snd (loadSessionData st s now) = st \<and> snd (loadSessionData_next st s now) = st"
    by (simp add: load_store load_next_store)
  show ?thesis
    using p1 p2 e l1 l2 n dup ex w nw by blast
qed

text \<open>
  At 300000 message \<open>A\<close> has just expired: next delivers \<open>B\<close>, a send of \<open>B\<close> is a duplicate
  of version 2, and the load writes the purged record; a store with nothing to purge is
  left alone.
\<close>

theorem C5_expiry_purge_witness:
  "fst (GET_next 300000 queue_store ''s'') = delivery_response ''B'' 300000 \<and>
   fst (POST_send no_conversion 300000 queue_store ''s'' ''B'' JUndefined) =
     duplicate_response 2 300000 \<and>
   expired_present queue_store ''s'' 300000 \<and>
   messages (fst (loadSessionData queue_store ''s'' 300000)) =
     [\<lparr>msg_id = ''B'', ver = 2, timestamp = 200000, expiresAt = Some 500000\<rparr>] \<and>
   snd (loadSessionData queue_store ''s'' 300000) =
     writeFile queue_store (data_path ''s'')
       (stringify_data (fst (loadSessionData queue_store ''s'' 300000))) 300000 \<and>
   \<not> expired_present queue_store ''s'' 250000 \<and>
   snd (loadSessionData queue_store ''s'' 250000) = queue_store \<and>
   snd (loadSessionData_next queue_store ''s'' 250000) = queue_store"
proof -
  have n: "fst (GET_next 300000 queue_store ''s'') = delivery_response ''B'' 300000"
    by (simp add: eval_next_defs)
  have d: "fst (POST_send no_conversion 300000 queue_store ''s'' ''B'' JUndefined) =
     duplicate_response 2 300000"
    by (simp add: eval_next_defs)
  have e: "expired_present queue_store ''s'' 300000"
    by (simp add: eval_next_defs)
  have ne: "\<not> expired_present queue_store ''s'' 250000"
    by (simp add: eval_next_defs)
  have m: "filter (\<lambda>m. effective_expiresAt m > 300000)
             (map (read_message 300000) (stored_messages queue_store ''s'')) =
           [\<lparr>msg_id = ''B'', ver = 2, timestamp = 200000, expiresAt = Some 500000\<rparr>]"
    by (simp add: eval_next_defs)
  show ?thesis
    using C5_expiry_purge [of "zero_record ''s''" 300000
        "\<lparr>msg_id = ''A'', ver = 1, timestamp = 0, expiresAt = None\<rparr>" 0 queue_store "''s''"
        "''B''" 300000 no_conversion JUndefined 2]
      C5_expiry_purge [of "zero_record ''s''" 250000
        "\<lparr>msg_id = ''A'', ver = 1, timestamp = 0, expiresAt = None\<rparr>" 0 queue_store "''s''"
        "''B''" 250000 no_conversion JUndefined 2]
      n d e ne m
    by simp
qed

section \<open>C6: TTL bounding\<close>

text \<open>
  C6, as the code has it. The effective ttl of every send lies between the minimum (one
  minute) and the maximum (sixty minutes). A ttl whose numeric conversion \<open>Number(ttl)\<close>
  is not finite (an absent ttl among them) yields the five-minute default; a finite
  conversion below the minimum yields the minimum, above the maximum the maximum, and in
  between its rounding. The message an accepted send stores has \<open>expiresAt\<close> equal to its
  creation time plus this effective ttl.
\<close>

theorem C6_ttl_bounding:
  "MIN_MESSAGE_TTL = 60000 \<and> MAX_MESSAGE_TTL = 3600000 \<and> DEFAULT_MESSAGE_TTL = 300000 \<and>
   MIN_MESSAGE_TTL \<le> sanitizeTTL coerce rawTtl \<and> sanitizeTTL coerce rawTtl \<le> MAX_MESSAGE_TTL \<and>
   sanitizeTTL coerce JUndefined = DEFAULT_MESSAGE_TTL \<and>
   (case Number_js coerce rawTtl of
      Finite parsed \<Rightarrow>
        (parsed < MIN_MESSAGE_TTL \<longrightarrow> sanitizeTTL coerce rawTtl = MIN_MESSAGE_TTL) \<and>
        (parsed > MAX_MESSAGE_TTL \<longrightarrow> sanitizeTTL coerce rawTtl = MAX_MESSAGE_TTL) \<and>
        (MIN_MESSAGE_TTL \<le> parsed \<and> parsed \<le> MAX_MESSAGE_TTL \<longrightarrow>
           sanitizeTTL coerce rawTtl = Math_round parsed)
    | _ \<Rightarrow> sanitizeTTL coerce rawTtl = DEFAULT_MESSAGE_TTL) \<and>
   (fst (POST_send coerce now st s i rawTtl) = accepted_response v now \<longrightarrow>
      stored_messages (snd (POST_send coerce now st s i rawTtl)) s \<noteq> [] \<and>
      last (stored_messages (snd (POST_send coerce now st s i rawTtl)) s) =
        \<lparr>j_id = Some i, j_ver = Some v, j_timestamp = Some now,
         j_expiresAt = Some (now + sanitizeTTL coerce rawTtl)\<rparr>)"
proof -
  have k: "MIN_MESSAGE_TTL = 60000 \<and> MAX_MESSAGE_TTL = 3600000 \<and> DEFAULT_MESSAGE_TTL = 300000"
    by (simp add: MIN_MESSAGE_TTL_def MAX_MESSAGE_TTL_def DEFAULT_MESSAGE_TTL_def)
  have undef: "sanitizeTTL coerce JUndefined = DEFAULT_MESSAGE_TTL"
    by (simp add: sanitizeTTL_def)
  have branches: "(case Number_js coerce rawTtl of
      Finite parsed \<Rightarrow>
        (parsed < MIN_MESSAGE_TTL \<longrightarrow> sanitizeTTL coerce rawTtl = MIN_MESSAGE_TTL) \<and>
        (parsed > MAX_MESSAGE_TTL \<longrightarrow> sanitizeTTL coerce rawTtl = MAX_MESSAGE_TTL) \<and>
        (MIN_MESSAGE_TTL \<le> parsed \<and> parsed \<le> MAX_MESSAGE_TTL \<longrightarrow>
           sanitizeTTL coerce rawTtl = Math_round parsed)
    | _ \<Rightarrow> sanitizeTTL coerce rawTtl = DEFAULT_MESSAGE_TTL)"
    by (cases "Number_js coerce rawTtl")
       (auto simp add: sanitizeTTL_def MIN_MESSAGE_TTL_def MAX_MESSAGE_TTL_def)
  have stored: "stored_messages (snd (POST_send coerce now st s i rawTtl)) s \<noteq> [] \<and>
      last (stored_messages (snd (POST_send coerce now st s i rawTtl)) s) =
        \<lparr>j_id = Some i, j_ver = Some v, j_timestamp = Some now,
         j_expiresAt = Some (now + sanitizeTTL coerce rawTtl)\<rparr>"
    if "fst (POST_send coerce now st s i rawTtl) = accepted_response v now"
    using POST_send_acceptedD [OF that]
    by (simp add: stored_messages_accepted stringify_message_def new_message_def)
  show ?thesis
    using k sanitizeTTL_range [of coerce rawTtl] undef branches stored by blast
qed

text \<open>A send with ttl 120000.4 on an active session: the stored message expires at 1000 + 120000.\<close>

theorem C6_ttl_bounding_witness:
  "sanitizeTTL no_conversion (JNum 120000.4) = 120000 \<and>
   fst (POST_send no_conversion 1000 open_store ''s'' ''X'' (JNum 120000.4)) = accepted_response 1 1000 \<and>
   last (stored_messages (snd (POST_send no_conversion 1000 open_store ''s'' ''X'' (JNum 120000.4))) ''s'') =
     \<lparr>j_id = Some ''X'', j_ver = Some 1, j_timestamp = Some 1000, j_expiresAt = Some 121000\<rparr>"
proof -
  have t: "sanitizeTTL no_conversion (JNum 120000.4) = 120000"
    by (simp add: sanitizeTTL_def Math_round_def MIN_MESSAGE_TTL_def MAX_MESSAGE_TTL_def)
  have a: "fst (POST_send no_conversion 1000 open_store ''s'' ''X'' (JNum 120000.4)) = accepted_response 1 1000"
    by (simp add: eval_defs)
  show ?thesis
    using C6_ttl_bounding [of no_conversion "JNum 120000.4" 1000 open_store "''s''" "''X''" 1] t a
    by simp
qed

text \<open>
  C6 as stated fails: \<open>null\<close> is not numeric, yet \<open>Number(null)\<close> is \<open>0\<close>, which is finite and
  below the minimum, so the ttl is the one-minute minimum and not the five-minute default.
\<close>

theorem C6_counterexample:
  "Number_js no_conversion JNull = Finite 0 \<and>
   sanitizeTTL no_conversion JNull = MIN_MESSAGE_TTL \<and>
   sanitizeTTL no_conversion JNull \<noteq> DEFAULT_MESSAGE_TTL"
  by (simp add: sanitizeTTL_def MIN_MESSAGE_TTL_def DEFAULT_MESSAGE_TTL_def)

section \<open>C7: defaulting at load\<close>




section \<open>C8: next on an empty queue\<close>

text \<open>
  C8. On a session (named in the request) whose queue holds no live message, next answers
  200 with \<open>ok: true\<close> and no id, whatever the status record says; and a further next call
  on the store it leaves, at any time, gives the same answer and leaves that store as it
  is.
\<close>

theorem C8_next_empty_idempotent:
  assumes "s \<noteq> []" and "queue st s now = []"
  shows "fst (GET_next now st s) = (200, [(''ok'', JBool True), (''time'', JNum now)]) \<and>
         fst (GET_next now (st(status_path s := g)) s) =
           (200, [(''ok'', JBool True), (''time'', JNum now)]) \<and>
         GET_next t (snd (GET_next now st s)) s =
           ((200, [(''ok'', JBool True), (''time'', JNum t)]), snd (GET_next now st s))"
proof -
  have first: "GET_next now st s = (empty_response now, snd (loadSessionData_next st s now))"
    using assms by (simp add: GET_next_unfold)
  have "(st(status_path s := g)) (data_path s) = st (data_path s)"
    using paths_differ [of s] by simp
  then have "queue (st(status_path s := g)) s now = []"
    using assms(2) queue_cong [of "st(status_path s := g)" s st now] by simp
  then have gate: "fst (GET_next now (st(status_path s := g)) s) = empty_response now"
    using assms(1) by (simp add: GET_next_unfold)
  have again: "GET_next t (snd (loadSessionData_next st s now)) s =
      (empty_response t, snd (loadSessionData_next st s now))"
    using assms(1) stored_after_load_next_empty [OF assms(2)] by (rule GET_next_empty)
  show ?thesis
    using first gate again by (simp add: empty_response_def)
qed

text \<open>
  At 600000 both messages of \<open>queue_store\<close> have expired: next answers with no id and
  writes the purged record; the next call, at 700000, changes nothing. The same with the
  gate closed.
\<close>

theorem C8_next_empty_idempotent_witness:
  "queue queue_store ''s'' 600000 = [] \<and>
   fst (GET_next 600000 queue_store ''s'') = (200, [(''ok'', JBool True), (''time'', JNum 600000)]) \<and>
   snd (GET_next 600000 queue_store ''s'') \<noteq> queue_store \<and>
   GET_next 700000 (snd (GET_next 600000 queue_store ''s'')) ''s'' =
     ((200, [(''ok'', JBool True), (''time'', JNum 700000)]), snd (GET_next 600000 queue_store ''s'')) \<and>
   fst (GET_next 600000 (queue_store(status_path ''s'' := None)) ''s'') =
     (200, [(''ok'', JBool True), (''time'', JNum 600000)])"
proof -
  have q: "queue queue_store ''s'' 600000 = []"
    by (simp add: eval_next_defs)
  have n: "''s'' \<noteq> []"
    by simp
  have w: "snd (GET_next 600000 queue_store ''s'') (data_path ''s'') \<noteq> queue_store (data_path ''s'')"
    by (simp add: eval_next_defs)
  then have c: "snd (GET_next 600000 queue_store ''s'') \<noteq> queue_store"
    by auto
  show ?thesis
    using C8_next_empty_idempotent [OF n q, of None 700000] q c by simp
qed

section \<open>C9: the viewer registry\<close>

text \<open>
  C9. Registering a viewer (device, name and operator all given) on a readable registry
  keeps the entries that are less than 10 seconds old and belong to other devices, in
  their order, and appends the fresh entry: every stale entry and every earlier entry of
  the device is gone, the device has exactly one entry, and device ids that were distinct
  stay distinct. Reading an operator's viewers, on any store and at any time, returns
  only entries of the registry that carry the operator id parsed from the query and are
  less than 10 seconds old. After a device has registered under one operator, a read for
  another operator returns no entry of that device, and a read for its operator within
  10 seconds returns the fresh entry.
\<close>

theorem C9_viewer_registry:
  assumes "d \<noteq> []" and "name \<noteq> []" and "op \<noteq> 0" and "read_viewers st = Some viewers"
  shows "fst (viewers_POST now st d name op) = Done \<and>
    viewers_of (snd (viewers_POST now st d name op)) =
      filter (\<lambda>v. deviceId v \<noteq> d) (filter (\<lambda>v. now - v_timestamp v < 10000) viewers) @
      [\<lparr>deviceId = d, operatorName = name, operatorId = op, v_timestamp = now\<rparr>] \<and>
    (\<forall>v\<in>set (viewers_of (snd (viewers_POST now st d name op))). now - v_timestamp v < 10000) \<and>
    filter (\<lambda>v. deviceId v = d) (viewers_of (snd (viewers_POST now st d name op))) =
      [\<lparr>deviceId = d, operatorName = name, operatorId = op, v_timestamp = now\<rparr>] \<and>
    (distinct (map deviceId viewers) \<longrightarrow>
       distinct (map deviceId (viewers_of (snd (viewers_POST now st d name op))))) \<and>
    (viewers_GET parseInt t st0 q = Listing vs \<longrightarrow>
       (\<forall>v\<in>set vs. v \<in> set (viewers_of st0) \<and> Some (operatorId v) = parseInt q \<and>
                   t - v_timestamp v < 10000)) \<and>
    (q \<noteq> [] \<and> parseInt q = Some op' \<and> op' \<noteq> op \<longrightarrow>
       (\<exists>found. viewers_GET parseInt t (snd (viewers_POST now st d name op)) q = Listing found \<and>
                d \<notin> deviceId ` set found)) \<and>
    (q \<noteq> [] \<and> parseInt q = Some op \<and> t - now < 10000 \<longrightarrow>
       (\<exists>found. viewers_GET parseInt t (snd (viewers_POST now st d name op)) q = Listing found \<and>
                \<lparr>deviceId = d, operatorName = name, operatorId = op, v_timestamp = now\<rparr> \<in> set found))"
proof -
  let ?new = "\<lparr>deviceId = d, operatorName = name, operatorId = op, v_timestamp = now\<rparr>"
  let ?kept = "filter (\<lambda>v. deviceId v \<noteq> d) (filter (\<lambda>v. now - v_timestamp v < 10000) viewers)"
  let ?st' = "snd (viewers_POST now st d name op)"
  have post: "viewers_POST now st d name op =
      (Done, writeFile st viewers_path (JsonViewers (?kept @ [?new])) now)"
    using assms by (rule viewers_POST_ok)
  have rd: "read_viewers ?st' = Some (?kept @ [?new])"
    by (simp add: post read_viewers_written)
  have vs: "viewers_of ?st' = ?kept @ [?new]"
    by (simp add: viewers_of_def rd)
  have ok: "fst (viewers_POST now st d name op) = Done"
    by (simp add: post)
  have vs': "viewers_of ?st' = ?kept @ [?new]"
    by (rule vs)
  have fresh: "\<forall>v\<in>set (viewers_of ?st'). now - v_timestamp v < 10000"
    by (auto simp add: vs)
  have one: "filter (\<lambda>v. deviceId v = d) (viewers_of ?st') = [?new]"
    by (simp add: vs filter_empty_conv)
  have dist: "distinct (map deviceId viewers) \<longrightarrow> distinct (map deviceId (viewers_of ?st'))"
    by (auto simp add: vs distinct_map_filter)
  have get: "viewers_GET parseInt t st0 q = Listing vs \<longrightarrow>
       (\<forall>v\<in>set vs. v \<in> set (viewers_of st0) \<and> Some (operatorId v) = parseInt q \<and>
                   t - v_timestamp v < 10000)"
    by (auto simp add: viewers_GET_def viewers_of_def split: if_splits option.splits)
  have other: "q \<noteq> [] \<and> parseInt q = Some op' \<and> op' \<noteq> op \<longrightarrow>
       (\<exists>found. viewers_GET parseInt t ?st' q = Listing found \<and> d \<notin> deviceId ` set found)"
    by (auto simp add: viewers_GET_def rd)
  have same: "q \<noteq> [] \<and> parseInt q = Some op \<and> t - now < 10000 \<longrightarrow>
       (\<exists>found. viewers_GET parseInt t ?st' q = Listing found \<and> ?new \<in> set found)"
    by (auto simp add: viewers_GET_def rd)
  show ?thesis
    by (intro conjI; fact)
qed

text \<open>
  Scenario D: device \<open>d1\<close> registers as Mario under operator 2 at 1000 and again under
  operator 3 at 2000. At 3000 operator 2 has no viewer and operator 3 has Mario.
\<close>

theorem C9_viewer_registry_witness:
  "read_viewers mario_store =
     Some [\<lparr>deviceId = ''d1'', operatorName = ''Mario'', operatorId = 2, v_timestamp = 1000\<rparr>] \<and>
   fst (viewers_POST 2000 mario_store ''d1'' ''Mario'' 3) = Done \<and>
   viewers_of (snd (viewers_POST 2000 mario_store ''d1'' ''Mario'' 3)) =
     [\<lparr>deviceId = ''d1'', operatorName = ''Mario'', operatorId = 3, v_timestamp = 2000\<rparr>] \<and>
   viewers_GET slot_parseInt 3000 (snd (viewers_POST 2000 mario_store ''d1'' ''Mario'' 3)) ''2'' =
     Listing [] \<and>
   viewers_GET slot_parseInt 3000 (snd (viewers_POST 2000 mario_store ''d1'' ''Mario'' 3)) ''3'' =
     Listing [\<lparr>deviceId = ''d1'', operatorName = ''Mario'', operatorId = 3, v_timestamp = 2000\<rparr>]"
proof -
  have r: "read_viewers mario_store =
     Some [\<lparr>deviceId = ''d1'', operatorName = ''Mario'', operatorId = 2, v_timestamp = 1000\<rparr>]"
    by (simp add: mario_store_def viewers_POST_def read_viewers_def viewers_path_def
        writeFile_def Let_def)
  have g2: "viewers_GET slot_parseInt 3000 (snd (viewers_POST 2000 mario_store ''d1'' ''Mario'' 3)) ''2'' =
     Listing []"
    by (simp add: viewers_POST_def r viewers_GET_def read_viewers_written Let_def slot_parseInt_def)
  have g3: "viewers_GET slot_parseInt 3000 (snd (viewers_POST 2000 mario_store ''d1'' ''Mario'' 3)) ''3'' =
     Listing [\<lparr>deviceId = ''d1'', operatorName = ''Mario'', operatorId = 3, v_timestamp = 2000\<rparr>]"
    by (simp add: viewers_POST_def r viewers_GET_def read_viewers_written Let_def slot_parseInt_def)
  show ?thesis
    using C9_viewer_registry [of "''d1''" "''Mario''" 3 mario_store
        "[\<lparr>deviceId = ''d1'', operatorName = ''Mario'', operatorId = 2, v_timestamp = 1000\<rparr>]"
        2000 slot_parseInt 3000 "snd (viewers_POST 2000 mario_store ''d1'' ''Mario'' 3)" "''3''"
        "[\<lparr>deviceId = ''d1'', operatorName = ''Mario'', operatorId = 3, v_timestamp = 2000\<rparr>]" 2,
        OF _ _ _ r] r g2 g3
    by simp
qed

section \<open>C10: the gate record and the queue record\<close>

text \<open>
  C10 as stated fails. The session's status record was last written at time 0; a send at
  24 hours and 1 millisecond finds the gate open and is accepted, and the sweep that this
  send starts deletes the status record, so the gate reads inactive afterwards.
\<close>

theorem C10_counterexample:
  "gate_open open_store ''s'' 86400001 = Some True \<and>
   fst (POST_send no_conversion 86400001 open_store ''s'' ''X'' JUndefined) =
     accepted_response 1 86400001 \<and>
   snd (POST_send no_conversion 86400001 open_store ''s'' ''X'' JUndefined) (status_path ''s'') = None \<and>
   gate_open (snd (POST_send no_conversion 86400001 open_store ''s'' ''X'' JUndefined)) ''s'' 86400001 =
     Some False"
proof -
  have g: "gate_open open_store ''s'' 86400001 = Some True"
    by (simp add: gate_open_def eval_defs)
  have a: "fst (POST_send no_conversion 86400001 open_store ''s'' ''X'' JUndefined) =
     accepted_response 1 86400001"
    by (simp add: eval_defs)
  have d: "snd (POST_send no_conversion 86400001 open_store ''s'' ''X'' JUndefined) (status_path ''s'') = None"
  proof -
    have "snd (POST_send no_conversion 86400001 open_store ''s'' ''X'' JUndefined) =
        accepted_store no_conversion 86400001 open_store ''s'' ''X'' JUndefined"
      using POST_send_acceptedD [OF a] by simp
    then have "snd (POST_send no_conversion 86400001 open_store ''s'' ''X'' JUndefined) (status_path ''s'') =
        cleanupOldFiles open_store 86400001 (status_path ''s'')"
      by (simp add: accepted_store_other paths_differ)
    then show ?thesis
      by (simp add: cleanupOldFiles_def open_store_def status_record_def maxAge_def
          status_path_def suffix_rev)
  qed
  show ?thesis
    using g a d by (simp add: gate_absent)
qed

text \<open>
  C10, as the code has it. A status write (a session and a boolean given) writes the
  status record, holding the session key, the active flag and lastUpdate, and leaves
  every other file as it was, so the session's queue and lastVersion are unchanged. An
  accepted send writes the queue record of its session, holding the session key, lastVer
  and the messages; every other file is then as the sweep leaves it: deleted when it is a
  \<open>.json\<close> file not modified for more than 24 hours, unchanged otherwise. So the active
  flag and lastUpdate are unchanged when the status record was modified within the last
  24 hours.
\<close>

theorem C10_disjoint_records:
  "(s \<noteq> [] \<longrightarrow>
      POST_status now st s (JBool b) =
        ((200, [(''ok'', JBool True)]),
         st(status_path s \<mapsto>
            \<lparr>content =
               JsonObject
                 \<lparr>j_session = JStr s, j_active = JBool b, j_lastUpdate = JNum now,
                  j_lastVer = JUndefined, j_messages = NoArray\<rparr>,
             mtimeMs = now\<rparr>))) \<and>
   (name \<noteq> status_path s \<longrightarrow> snd (POST_status now st s a) name = st name) \<and>
   snd (POST_status now st s a) (data_path s) = st (data_path s) \<and>
   stored_messages (snd (POST_status now st s a)) s = stored_messages st s \<and>
   lastVersion (snd (POST_status now st s a)) s t = lastVersion st s t \<and>
   (fst (POST_send coerce now st s i messageTTL) = accepted_response v now \<longrightarrow>
      snd (POST_send coerce now st s i messageTTL) (data_path s) =
        Some \<lparr>content =
                JsonObject
                  \<lparr>j_session = JStr s, j_active = JUndefined, j_lastUpdate = JUndefined,
                   j_lastVer = JNum v,
                   j_messages =
                     Array (map stringify_message
                       (queue st s now @ [new_message i v now (sanitizeTTL coerce messageTTL)]))\<rparr>,
              mtimeMs = now\<rparr> \<and>
      (name \<noteq> data_path s \<longrightarrow>
         snd (POST_send coerce now st s i messageTTL) name = cleanupOldFiles st now name) \<and>
      (st (status_path s) = Some f \<and> now - mtimeMs f \<le> 24 * 60 * 60 * 1000 \<longrightarrow>
         snd (POST_send coerce now st s i messageTTL) (status_path s) = Some f \<and>
         gate_open (snd (POST_send coerce now st s i messageTTL)) s t = gate_open st s t \<and>
         prop_lastUpdate (loadSessionStatus (snd (POST_send coerce now st s i messageTTL)) s t) =
           prop_lastUpdate (loadSessionStatus st s t)))"
proof -
  have w: "s \<noteq> [] \<longrightarrow>
      POST_status now st s (JBool b) =
        ((200, [(''ok'', JBool True)]),
         st(status_path s \<mapsto>
            \<lparr>content =
               JsonObject
                 \<lparr>j_session = JStr s, j_active = JBool b, j_lastUpdate = JNum now,
                  j_lastVer = JUndefined, j_messages = NoArray\<rparr>,
             mtimeMs = now\<rparr>))"
    by (simp add: POST_status_def saveSessionStatus_def writeFile_def)
  have o: "name \<noteq> status_path s \<longrightarrow> snd (POST_status now st s a) name = st name"
    by (simp add: POST_status_def saveSessionStatus_def writeFile_def split: js_value.splits)
  have d: "snd (POST_status now st s a) (data_path s) = st (data_path s)"
    using paths_differ [of s]
    by (simp add: POST_status_def saveSessionStatus_def writeFile_def split: js_value.splits)
  have m: "stored_messages (snd (POST_status now st s a)) s = stored_messages st s"
    using d by (rule stored_messages_cong)
  have l: "lastVersion (snd (POST_status now st s a)) s t = lastVersion st s t"
    using d by (rule lastVersion_cong)
  have send: "snd (POST_send coerce now st s i messageTTL) (data_path s) =
        Some \<lparr>content =
                JsonObject
                  \<lparr>j_session = JStr s, j_active = JUndefined, j_lastUpdate = JUndefined,
                   j_lastVer = JNum v,
                   j_messages =
                     Array (map stringify_message
                       (queue st s now @ [new_message i v now (sanitizeTTL coerce messageTTL)]))\<rparr>,
              mtimeMs = now\<rparr> \<and>
      (name \<noteq> data_path s \<longrightarrow>
         snd (POST_send coerce now st s i messageTTL) name = cleanupOldFiles st now name) \<and>
      (st (status_path s) = Some f \<and> now - mtimeMs f \<le> 24 * 60 * 60 * 1000 \<longrightarrow>
         snd (POST_send coerce now st s i messageTTL) (status_path s) = Some f \<and>
         gate_open (snd (POST_send coerce now st s i messageTTL)) s t = gate_open st s t \<and>
         prop_lastUpdate (loadSessionStatus (snd (POST_send coerce now st s i messageTTL)) s t) =
           prop_lastUpdate (loadSessionStatus st s t))"
    if acc: "fst (POST_send coerce now st s i messageTTL) = accepted_response v now"
  proof -
    from POST_send_acceptedD [OF acc]
    have v: "v = lastVersion st s now + 1"
      and st': "snd (POST_send coerce now st s i messageTTL) = accepted_store coerce now st s i messageTTL"
      by simp_all
    have a1: "snd (POST_send coerce now st s i messageTTL) (data_path s) =
        Some \<lparr>content =
                JsonObject
                  \<lparr>j_session = JStr s, j_active = JUndefined, j_lastUpdate = JUndefined,
                   j_lastVer = JNum v,
                   j_messages =
                     Array (map stringify_message
                       (queue st s now @ [new_message i v now (sanitizeTTL coerce messageTTL)]))\<rparr>,
              mtimeMs = now\<rparr>"
      by (simp add: st' accepted_store_data stringify_data_def v)
    have a2: "name \<noteq> data_path s \<longrightarrow>
         snd (POST_send coerce now st s i messageTTL) name = cleanupOldFiles st now name"
      by (simp add: st' accepted_store_other)
    have a3: "snd (POST_send coerce now st s i messageTTL) (status_path s) = Some f \<and>
         gate_open (snd (POST_send coerce now st s i messageTTL)) s t = gate_open st s t \<and>
         prop_lastUpdate (loadSessionStatus (snd (POST_send coerce now st s i messageTTL)) s t) =
           prop_lastUpdate (loadSessionStatus st s t)"
      if "st (status_path s) = Some f \<and> now - mtimeMs f \<le> 24 * 60 * 60 * 1000"
    proof -
      have k: "snd (POST_send coerce now st s i messageTTL) (status_path s) = st (status_path s)"
        using that
        by (simp add: st' accepted_store_other paths_differ cleanupOldFiles_def maxAge_def)
      show ?thesis
        using k that
          gate_open_cong [of "snd (POST_send coerce now st s i messageTTL)" s st t, OF k]
        by (simp add: loadSessionStatus_def)
    qed
    show ?thesis
      using a1 a2 a3 by blast
  qed
  show ?thesis
    using w o d m l send by blast
qed

text \<open>
  A status write on a session with a queue leaves the queue record alone; a send
  accepted at 1000, while the status record written at 0 is recent, leaves the gate open.
\<close>

theorem C10_disjoint_records_witness:
  "snd (POST_status 1000 queue_store ''s'' (JBool False)) (data_path ''s'') =
     queue_store (data_path ''s'') \<and>
   gate_open (snd (POST_status 1000 queue_store ''s'' (JBool False))) ''s'' 1000 = Some False \<and>
   fst (POST_send no_conversion 1000 open_store ''s'' ''X'' JUndefined) = accepted_response 1 1000 \<and>
   snd (POST_send no_conversion 1000 open_store ''s'' ''X'' JUndefined) (status_path ''s'') =
     Some (status_record ''s'' (JBool True) 0) \<and>
   gate_open (snd (POST_send no_conversion 1000 open_store ''s'' ''X'' JUndefined)) ''s'' 1000 =
     Some True"
proof -
  have a: "fst (POST_send no_conversion 1000 open_store ''s'' ''X'' JUndefined) = accepted_response 1 1000"
    by (simp add: eval_defs)
  have f: "open_store (status_path ''s'') = Some (status_record ''s'' (JBool True) 0)"
    by (simp add: open_store_def)
  have g: "gate_open open_store ''s'' 1000 = Some True"
    by (simp add: gate_open_def eval_defs)
  have n: "''s'' \<noteq> []"
    by simp
  have p: "gate_open (snd (POST_status 1000 queue_store ''s'' (JBool False))) ''s'' 1000 = Some False"
    using C10_disjoint_records [of "''s''" 1000 queue_store False "data_path ''s''" "JBool False"
        1000 no_conversion "''X''" JUndefined 1 "status_record ''s'' (JBool True) 0"] n
    by (simp add: gate_open_def loadSessionStatus_def)
  show ?thesis
    using C10_disjoint_records [of "''s''" 1000 open_store False "status_path ''s''" "JBool False"
        1000 no_conversion "''X''" JUndefined 1 "status_record ''s'' (JBool True) 0"]
      C10_disjoint_records [of "''s''" 1000 queue_store False "data_path ''s''" "JBool False"
        1000 no_conversion "''X''" JUndefined 1 "status_record ''s'' (JBool True) 0"]
      a f g p
    by (simp add: status_record_def paths_differ paths_differ [symmetric] cleanupOldFiles_def
        maxAge_def)
qed

end
